theory Spec2Isabelle
  imports Main
begin

section \<open>bed_to_tabix: the command-line front end (cli.py)\<close>

text \<open>
  The module \<^verbatim>\<open>cli.py\<close> has two functions: \<^verbatim>\<open>parse_arguments\<close>, which normalises the
  mapping that docopt built from the command line, and \<^verbatim>\<open>main\<close>, which hands the
  normalised mapping to the pipeline runner and cleans up afterwards. Both are embedded
  here as functions that return the list of observable events (what is printed, logged
  and called) together with either the raised exception or the returned value.
\<close>

subsection \<open>Strings\<close>

text \<open>\<^verbatim>\<open>str.startswith\<close> and \<^verbatim>\<open>str.endswith\<close>.\<close>

definition startswith :: "string \<Rightarrow> string \<Rightarrow> bool" where
  "startswith s p = (take (length p) s = p)"

definition endswith :: "string \<Rightarrow> string \<Rightarrow> bool" where
  "endswith s p = (take (length p) (rev s) = rev p)"

text \<open>
  \<^verbatim>\<open>str.replace(old, new)\<close> for a non-empty \<^verbatim>\<open>old\<close>: one scan from the left; where
  \<^verbatim>\<open>old\<close> starts it is replaced and the scan goes on behind it.
\<close>

fun py_replace :: "string \<Rightarrow> string \<Rightarrow> string \<Rightarrow> string" where
  "py_replace old new [] = []"
| "py_replace old new (c # cs) =
     (if old \<noteq> [] \<and> startswith (c # cs) old
      then new @ py_replace old new (drop (length old) (c # cs))
      else c # py_replace old new cs)"

text \<open>\<^verbatim>\<open>sep.join(parts)\<close>.\<close>

fun str_join :: "string \<Rightarrow> string list \<Rightarrow> string" where
  "str_join sep [] = []"
| "str_join sep [x] = x"
| "str_join sep (x # y # ys) = x @ sep @ str_join sep (y # ys)"

text \<open>\<^verbatim>\<open>str.upper\<close> on ASCII text.\<close>

definition upper_char :: "char \<Rightarrow> char" where
  "upper_char c =
     (case map_of (zip ''abcdefghijklmnopqrstuvwxyz'' ''ABCDEFGHIJKLMNOPQRSTUVWXYZ'') c of
        Some u \<Rightarrow> u
      | None \<Rightarrow> c)"

definition upper :: "string \<Rightarrow> string" where
  "upper s = map upper_char s"

text \<open>
  \<^verbatim>\<open>os.path.basename\<close> and \<^verbatim>\<open>os.path.join\<close> of two components, as \<^verbatim>\<open>posixpath\<close>
  defines them: the base name is what follows the last slash; a second component that
  starts with a slash replaces the first, and a slash is only inserted after a non-empty
  first component that does not end with one.
\<close>

definition basename :: "string \<Rightarrow> string" where
  "basename p = rev (takeWhile (\<lambda>c. c \<noteq> CHR ''/'') (rev p))"

definition path_join :: "string \<Rightarrow> string \<Rightarrow> string" where
  "path_join a b =
     (if startswith b ''/'' then b
      else if a = [] \<or> endswith a ''/'' then a @ b
      else a @ ''/'' @ b)"

text \<open>Decimal text of an integer, as \<^verbatim>\<open>str.format\<close> renders one.\<close>

fun show_nat :: "nat \<Rightarrow> string" where
  "show_nat n =
     (if n < 10 then [''0123456789'' ! n]
      else show_nat (n div 10) @ [''0123456789'' ! (n mod 10)])"

declare show_nat.simps [simp del]

definition show_int :: "int \<Rightarrow> string" where
  "show_int i = (if i < 0 then ''-'' @ show_nat (nat (- i)) else show_nat (nat i))"

subsection \<open>Values, exceptions and observable events\<close>

text \<open>
  The values docopt stores in its mapping are \<^verbatim>\<open>None\<close>, booleans, strings and lists of
  strings; \<^verbatim>\<open>parse_arguments\<close> stores an integer for the thread count. The mapping is a
  Python \<^verbatim>\<open>dict\<close>: reading a key that is not there raises \<^verbatim>\<open>KeyError\<close>.
\<close>

datatype val = VNone | VBool bool | VInt int | VStr string | VList "string list"

type_synonym arguments = "string \<rightharpoonup> val"

text \<open>Truth value of an object in an \<^verbatim>\<open>if\<close>.\<close>

fun truthy :: "val \<Rightarrow> bool" where
  "truthy VNone = False"
| "truthy (VBool b) = b"
| "truthy (VInt i) = (i \<noteq> 0)"
| "truthy (VStr s) = (s \<noteq> [])"
| "truthy (VList xs) = (xs \<noteq> [])"

text \<open>
  \<^verbatim>\<open>SystemExit\<close> carries the argument of \<^verbatim>\<open>sys.exit\<close> (\<open>None\<close> when it is called
  without one). \<^verbatim>\<open>CalledProcessError\<close> carries its \<^verbatim>\<open>args\<close>, the exit code and the
  command (as text).
\<close>

datatype py_exc =
    SystemExit "int option"
  | KeyError string
  | ValueError
  | TypeError
  | AttributeError
  | KeyboardInterrupt
  | CalledProcessError int string
  | OtherError string

text \<open>The keyword arguments of the call of \<^verbatim>\<open>run_pipeline\<close> in \<^verbatim>\<open>main\<close>.\<close>

record run_args =
  bedfiles :: val
  threads :: val
  outfile :: val
  gzip_output :: bool
  dry_run :: val
  path_to_bcftools :: val
  path_to_java :: val
  path_to_tabix :: val
  path_to_gatk3 :: val
  path_to_bgzip :: val
  path_to_reference_fasta :: val

datatype event =
    Print string
  | LogWarning string
  | LogInfo string
  | LogInstall string
  | RunPipeline run_args
  | CleanupTempFiles

type_synonym 'a result = "event list \<times> (py_exc + 'a)"

text \<open>
  What the program reads from outside \<^verbatim>\<open>cli.py\<close>: the working directory, the process
  environment, the file system (\<^verbatim>\<open>os.path.isfile\<close>), the conversion \<^verbatim>\<open>int\<close> of a string
  (\<open>None\<close> where it raises \<^verbatim>\<open>ValueError\<close>), the dictionary \<^verbatim>\<open>PACKAGE_INFO\<close> of module
  \<^verbatim>\<open>package_info\<close>, and the two functions of module \<^verbatim>\<open>lib\<close>, given by the exception
  they raise, if any.
\<close>

record world =
  getcwd :: string
  environ :: "string \<rightharpoonup> string"
  isfile :: "string \<Rightarrow> bool"
  int_of_str :: "string \<Rightarrow> int option"
  PACKAGE_INFO :: "string \<rightharpoonup> string"
  run_pipeline :: "run_args \<Rightarrow> py_exc option"
  cleanup_temp_files :: "py_exc option"

text \<open>Sequencing: the events add up, and an exception ends the sequence.\<close>

definition and_then :: "'a result \<Rightarrow> ('a \<Rightarrow> 'b result) \<Rightarrow> 'b result" where
  "and_then r f =
     (case r of
        (tr, Inl e) \<Rightarrow> (tr, Inl e)
      | (tr, Inr a) \<Rightarrow> (case f a of (tr', x) \<Rightarrow> (tr @ tr', x)))"

text \<open>\<^verbatim>\<open>int(x)\<close> on the values of the mapping.\<close>

fun py_int :: "world \<Rightarrow> val \<Rightarrow> py_exc + int" where
  "py_int w (VStr s) = (case int_of_str w s of None \<Rightarrow> Inl ValueError | Some n \<Rightarrow> Inr n)"
| "py_int w (VInt i) = Inr i"
| "py_int w (VBool b) = Inr (if b then 1 else 0)"
| "py_int w VNone = Inl TypeError"
| "py_int w (VList xs) = Inl TypeError"

text \<open>
  Iterating over a value in the generator expression of line 97: a list gives its
  elements, a string its characters, anything else is not iterable.
\<close>

fun iter_strs :: "val \<Rightarrow> py_exc + string list" where
  "iter_strs (VList xs) = Inr xs"
| "iter_strs (VStr s) = Inr (map (\<lambda>c. [c]) s)"
| "iter_strs v = Inl TypeError"

subsection \<open>parse_arguments\<close>

definition defaults_threads :: int where
  "defaults_threads = 6"

text \<open>Lines 86 to 89: the version flag prints the banner and exits.\<close>

definition version_keys :: "string list" where
  "version_keys = [''PROGRAM_NAME'', ''VERSION'', ''DATE'', ''AUTHOR'', ''URL'']"

definition version_msg :: "(string \<rightharpoonup> string) \<Rightarrow> py_exc + string" where
  "version_msg info =
     (case find (\<lambda>k. info k = None) version_keys of
        Some k \<Rightarrow> Inl (KeyError k)
      | None \<Rightarrow>
          Inr (the (info ''PROGRAM_NAME'') @ '' '' @ the (info ''VERSION'') @ '' ('' @
               the (info ''DATE'') @ '') by '' @ the (info ''AUTHOR'') @
               [CHR 0x0A] @ ''Check: '' @ the (info ''URL'')))"

definition check_version :: "world \<Rightarrow> arguments \<Rightarrow> arguments result" where
  "check_version w a =
     (case a ''--version'' of
        None \<Rightarrow> ([], Inl (KeyError ''--version''))
      | Some v \<Rightarrow>
          if truthy v then
            (case version_msg (PACKAGE_INFO w) of
               Inl e \<Rightarrow> ([], Inl e)
             | Inr msg \<Rightarrow> ([Print msg], Inl (SystemExit None)))
          else ([], Inr a))"

text \<open>Lines 91 to 94: the thread count.\<close>

definition resolve_threads :: "world \<Rightarrow> arguments \<Rightarrow> arguments result" where
  "resolve_threads w a =
     (case a ''--threads'' of
        None \<Rightarrow> ([], Inl (KeyError ''--threads''))
      | Some v \<Rightarrow>
          if truthy v then
            (case py_int w v of
               Inl e \<Rightarrow> ([], Inl e)
             | Inr n \<Rightarrow> ([], Inr (a(''--threads'' \<mapsto> VInt n))))
          else ([], Inr (a(''--threads'' \<mapsto> VInt defaults_threads))))"

text \<open>Lines 96 to 99: the output path derived from the input files.\<close>

definition out_filename :: "string list \<Rightarrow> string" where
  "out_filename beds = str_join ''__'' (map (\<lambda>bed. py_replace ''.bed'' [] (basename bed)) beds)"

definition derive_out :: "world \<Rightarrow> arguments \<Rightarrow> arguments result" where
  "derive_out w a =
     (case a ''--out'' of
        None \<Rightarrow> ([], Inl (KeyError ''--out''))
      | Some v \<Rightarrow>
          if \<not> truthy v then
            (case a ''--in'' of
               None \<Rightarrow> ([], Inl (KeyError ''--in''))
             | Some i \<Rightarrow>
                 (case iter_strs i of
                    Inl e \<Rightarrow> ([], Inl e)
                  | Inr beds \<Rightarrow>
                      ([], Inr (a(''--out'' \<mapsto> VStr (path_join (getcwd w) (out_filename beds)))))))
          else ([], Inr a))"

text \<open>Lines 101 and 102: only a string has \<^verbatim>\<open>endswith\<close>.\<close>

definition add_vcf :: "arguments \<Rightarrow> arguments result" where
  "add_vcf a =
     (case a ''--out'' of
        None \<Rightarrow> ([], Inl (KeyError ''--out''))
      | Some (VStr s) \<Rightarrow>
          if \<not> endswith s ''.vcf'' then ([], Inr (a(''--out'' \<mapsto> VStr (s @ ''.vcf''))))
          else ([], Inr a)
      | Some _ \<Rightarrow> ([], Inl AttributeError))"

text \<open>Lines 104 and 105.\<close>

definition add_gz :: "arguments \<Rightarrow> arguments result" where
  "add_gz a =
     (case a ''--unzipped'' of
        None \<Rightarrow> ([], Inl (KeyError ''--unzipped''))
      | Some u \<Rightarrow>
          if \<not> truthy u then
            (case a ''--out'' of
               None \<Rightarrow> ([], Inl (KeyError ''--out''))
             | Some (VStr s) \<Rightarrow> ([], Inr (a(''--out'' \<mapsto> VStr (s @ ''.gz''))))
             | Some _ \<Rightarrow> ([], Inl TypeError))
          else ([], Inr a))"

text \<open>Lines 107 to 119: the paths of the external tools, one turn of the loop per name.\<close>

definition varnames :: "string list" where
  "varnames = [''bcftools'', ''tabix'', ''bgzip'', ''gatk3'', ''java'', ''reference_fasta'']"

definition parameter_of :: "string \<Rightarrow> string" where
  "parameter_of v = ''--'' @ py_replace ''_'' ''-'' (''path_to_'' @ v)"

definition env_varname_of :: "string \<Rightarrow> string" where
  "env_varname_of v = upper (''path_to_'' @ v)"

definition missing_msg :: "string \<Rightarrow> string" where
  "missing_msg v =
     ''Missing either '' @ parameter_of v @ '' '' @ ''or ENV variable '' @ env_varname_of v"

definition resolve_tool :: "world \<Rightarrow> string \<Rightarrow> arguments \<Rightarrow> arguments result" where
  "resolve_tool w v a =
     (case a (parameter_of v) of
        None \<Rightarrow> ([], Inl (KeyError (parameter_of v)))
      | Some x \<Rightarrow>
          if \<not> truthy x then
            (case environ w (env_varname_of v) of
               Some p \<Rightarrow> ([], Inr (a(parameter_of v \<mapsto> VStr p)))
             | None \<Rightarrow> ([Print (missing_msg v)], Inl (SystemExit None)))
          else ([], Inr a))"

fun resolve_tools :: "world \<Rightarrow> string list \<Rightarrow> arguments \<Rightarrow> arguments result" where
  "resolve_tools w [] a = ([], Inr a)"
| "resolve_tools w (v # vs) a = and_then (resolve_tool w v a) (resolve_tools w vs)"

text \<open>
  Lines 121 to 125: the guard against overwriting. Its first test is whether the key
  is in the mapping; \<^verbatim>\<open>isfile\<close> is only called when it is not.
\<close>

definition exists_msg :: "string \<Rightarrow> string" where
  "exists_msg p =
     ''Output file '' @ p @ '' already exists!'' @ [CHR 0x0A] @
     ''Use --force or -f to overwrite it or change the output filename with --out.''"

definition overwrite_guard :: "world \<Rightarrow> arguments \<Rightarrow> arguments result" where
  "overwrite_guard w a =
     (if a ''--force'' = None then
        (case a ''--out'' of
           None \<Rightarrow> ([], Inl (KeyError ''--out''))
         | Some (VStr p) \<Rightarrow>
             if isfile w p then ([LogWarning (exists_msg p)], Inl (SystemExit None))
             else ([], Inr a)
         | Some _ \<Rightarrow> ([], Inl TypeError))
      else ([], Inr a))"

text \<open>
  The whole function: lines 86 to 105, then the loop over the tools, then the guard.
\<close>

definition before_tools :: "world \<Rightarrow> arguments \<Rightarrow> arguments result" where
  "before_tools w a =
     and_then (check_version w a) (\<lambda>a.
     and_then (resolve_threads w a) (\<lambda>a.
     and_then (derive_out w a) (\<lambda>a.
     and_then (add_vcf a) add_gz)))"

definition resolve :: "world \<Rightarrow> arguments \<Rightarrow> arguments result" where
  "resolve w a = and_then (before_tools w a) (resolve_tools w varnames)"

definition parse_arguments :: "world \<Rightarrow> arguments \<Rightarrow> arguments result" where
  "parse_arguments w a = and_then (resolve w a) (overwrite_guard w)"

subsection \<open>main\<close>

text \<open>
  The body of the \<^verbatim>\<open>try\<close>: the keyword arguments are read from the mapping in the order
  they are written, then the runner is called.
\<close>

definition run_keys :: "string list" where
  "run_keys = [''--in'', ''--threads'', ''--out'', ''--unzipped'', ''--dry-run'',
     ''--path-to-bcftools'', ''--path-to-java'', ''--path-to-tabix'', ''--path-to-gatk3'',
     ''--path-to-bgzip'', ''--path-to-reference-fasta'']"

definition call_args :: "arguments \<Rightarrow> run_args" where
  "call_args a =
     \<lparr> bedfiles = the (a ''--in''),
       threads = the (a ''--threads''),
       outfile = the (a ''--out''),
       gzip_output = (\<not> truthy (the (a ''--unzipped''))),
       dry_run = the (a ''--dry-run''),
       path_to_bcftools = the (a ''--path-to-bcftools''),
       path_to_java = the (a ''--path-to-java''),
       path_to_tabix = the (a ''--path-to-tabix''),
       path_to_gatk3 = the (a ''--path-to-gatk3''),
       path_to_bgzip = the (a ''--path-to-bgzip''),
       path_to_reference_fasta = the (a ''--path-to-reference-fasta'') \<rparr>"

definition try_body :: "world \<Rightarrow> arguments \<Rightarrow> event list \<times> py_exc option" where
  "try_body w a =
     (case find (\<lambda>k. a k = None) run_keys of
        Some k \<Rightarrow> ([], Some (KeyError k))
      | None \<Rightarrow> ([RunPipeline (call_args a)], run_pipeline w (call_args a)))"

text \<open>The two \<^verbatim>\<open>except\<close> clauses; any other exception is not caught.\<close>

definition failed_msg :: "int \<Rightarrow> string \<Rightarrow> string" where
  "failed_msg code cmd =
     ''The following command failed (code: '' @ show_int code @ ''). Cleanup and exit: '' @ cmd"

fun except_clauses :: "py_exc \<Rightarrow> event list \<times> py_exc option" where
  "except_clauses KeyboardInterrupt =
     ([LogWarning ''User stopped the program. Cleanup and exit.''], Some (SystemExit None))"
| "except_clauses (CalledProcessError code cmd) =
     ([LogWarning (failed_msg code cmd)], Some (SystemExit None))"
| "except_clauses e = ([], Some e)"

text \<open>The \<^verbatim>\<open>finally\<close> clause.\<close>

definition finally_clause :: "world \<Rightarrow> arguments \<Rightarrow> event list \<times> py_exc option" where
  "finally_clause w a =
     (case a ''--no-cleanup'' of
        None \<Rightarrow> ([], Some (KeyError ''--no-cleanup''))
      | Some v \<Rightarrow>
          if truthy v then ([LogInfo ''No cleanup requested, leaving the temp files.''], None)
          else ([LogInfo ''Cleaning up temporary files.'', CleanupTempFiles],
                cleanup_temp_files w))"

text \<open>
  The \<^verbatim>\<open>try\<close> statement: an exception of the \<^verbatim>\<open>finally\<close> clause replaces the pending
  one.
\<close>

definition try_statement :: "world \<Rightarrow> arguments \<Rightarrow> unit result" where
  "try_statement w a =
     (case try_body w a of (tr1, r1) \<Rightarrow>
      case (case r1 of None \<Rightarrow> ([], None) | Some e \<Rightarrow> except_clauses e) of (tr2, r2) \<Rightarrow>
      case finally_clause w a of (tr3, r3) \<Rightarrow>
        (tr1 @ tr2 @ tr3,
         case r3 of
           Some e \<Rightarrow> Inl e
         | None \<Rightarrow> (case r2 of Some e \<Rightarrow> Inl e | None \<Rightarrow> Inr ())))"

text \<open>
  \<^verbatim>\<open>main\<close>, from the mapping that \<^verbatim>\<open>docopt(__doc__)\<close> returned: lines 131 to 135, then
  the \<^verbatim>\<open>try\<close> statement.
\<close>

definition main :: "world \<Rightarrow> arguments \<Rightarrow> unit result" where
  "main w a0 =
     and_then (parse_arguments w a0) (\<lambda>a.
       case a ''--debug'' of
         None \<Rightarrow> ([], Inl (KeyError ''--debug''))
       | Some d \<Rightarrow>
           and_then ([LogInstall (if truthy d then ''DEBUG'' else ''INFO'')], Inr ())
             (\<lambda>_. try_statement w a))"

text \<open>
  The exit status the interpreter gives the process: 0 after a normal return and after
  \<^verbatim>\<open>sys.exit()\<close> without argument, the argument after \<^verbatim>\<open>sys.exit(n)\<close>, 130 after an
  interrupt that nothing caught, 1 after any other exception that nothing caught.
\<close>

fun exit_status :: "py_exc + 'a \<Rightarrow> int" where
  "exit_status (Inr _) = 0"
| "exit_status (Inl (SystemExit None)) = 0"
| "exit_status (Inl (SystemExit (Some n))) = n mod 256"
| "exit_status (Inl KeyboardInterrupt) = 130"
| "exit_status (Inl _) = 1"

subsection \<open>What docopt returns\<close>

text \<open>
  docopt builds the mapping from the usage text at the head of the module (lines 6 to
  63) and puts a key in it for every option the text declares: a flag is mapped to a
  boolean, an option with an argument to \<^verbatim>\<open>None\<close> or to the string given, and the
  repeatable \<^verbatim>\<open>--in\<close> to the list of the strings given.
\<close>

definition flag_keys :: "string list" where
  "flag_keys = [''--unzipped'', ''--force'', ''--dry-run'', ''--debug'', ''--no-cleanup'',
     ''--help'', ''--version'']"

definition value_keys :: "string list" where
  "value_keys = [''--out'', ''--threads'', ''--path-to-bcftools'', ''--path-to-tabix'',
     ''--path-to-bgzip'', ''--path-to-java'', ''--path-to-gatk3'',
     ''--path-to-reference-fasta'']"

fun is_flag :: "val option \<Rightarrow> bool" where
  "is_flag (Some (VBool b)) = True"
| "is_flag _ = False"

fun is_value :: "val option \<Rightarrow> bool" where
  "is_value (Some VNone) = True"
| "is_value (Some (VStr s)) = True"
| "is_value _ = False"

fun is_list :: "val option \<Rightarrow> bool" where
  "is_list (Some (VList xs)) = True"
| "is_list _ = False"

definition docopt_result :: "arguments \<Rightarrow> bool" where
  "docopt_result a =
     (list_all (\<lambda>k. is_flag (a k)) flag_keys \<and> list_all (\<lambda>k. is_value (a k)) value_keys \<and>
      is_list (a ''--in''))"

subsection \<open>The resolution order of a tool path, as the specification words it\<close>

text \<open>
  The flag if it is given, else the environment variable if it is set, else nothing.
  A flag counts as given when its value counts as true, which is what line 113 tests:
  \<^verbatim>\<open>None\<close> and the empty string do not.
\<close>

definition spec_tool_path :: "world \<Rightarrow> arguments \<Rightarrow> string \<Rightarrow> val option" where
  "spec_tool_path w a v =
     (case a (parameter_of v) of
        None \<Rightarrow> None
      | Some x \<Rightarrow> if truthy x then Some x else map_option VStr (environ w (env_varname_of v)))"

subsection \<open>Reading a run\<close>

fun is_run_pipeline :: "event \<Rightarrow> bool" where
  "is_run_pipeline (RunPipeline ra) = True"
| "is_run_pipeline _ = False"

fun is_print :: "event \<Rightarrow> bool" where
  "is_print (Print m) = True"
| "is_print _ = False"

text \<open>What a run left under a key of the mapping; nothing when it raised.\<close>

definition resolved :: "string \<Rightarrow> arguments result \<Rightarrow> val option" where
  "resolved k r = (case snd r of Inl e \<Rightarrow> None | Inr a \<Rightarrow> a k)"

subsection \<open>An example run\<close>

text \<open>
  A world in which every tool is found through the environment and no file exists, a
  conversion that reads plain decimal numerals, and the mapping docopt returns for
  \<^verbatim>\<open>bed_to_tabix --in a.bed --in b.bed\<close>.
\<close>

definition dec_int :: "string \<Rightarrow> int option" where
  "dec_int s =
     (if s \<noteq> [] \<and> list_all (\<lambda>c. c \<in> set ''0123456789'') s
      then Some (int (foldl (\<lambda>n c. 10 * n + (of_char c - 48)) 0 s))
      else None)"

definition ex_world :: world where
  "ex_world =
     \<lparr> getcwd = ''/home/u'',
       environ = map_of
         [(''PATH_TO_BCFTOOLS'', ''/opt/bcftools''), (''PATH_TO_TABIX'', ''/opt/tabix''),
          (''PATH_TO_BGZIP'', ''/opt/bgzip''), (''PATH_TO_GATK3'', ''/opt/gatk3.jar''),
          (''PATH_TO_JAVA'', ''/opt/java''), (''PATH_TO_REFERENCE_FASTA'', ''/opt/ref.fa'')],
       isfile = (\<lambda>p. False),
       int_of_str = dec_int,
       PACKAGE_INFO = map_of
         [(''PROGRAM_NAME'', ''bed_to_tabix''), (''VERSION'', ''1.0''), (''DATE'', ''2017''),
          (''AUTHOR'', ''biocodices''), (''URL'', ''github'')],
       run_pipeline = (\<lambda>ra. None),
       cleanup_temp_files = None \<rparr>"

definition ex_arguments :: arguments where
  "ex_arguments = map_of
     [(''--in'', VList [''a.bed'', ''b.bed'']), (''--out'', VNone), (''--threads'', VNone),
      (''--unzipped'', VBool False), (''--force'', VBool False), (''--dry-run'', VBool False),
      (''--debug'', VBool False), (''--no-cleanup'', VBool False),
      (''--path-to-bcftools'', VNone), (''--path-to-tabix'', VNone),
      (''--path-to-bgzip'', VNone), (''--path-to-java'', VNone),
      (''--path-to-gatk3'', VNone), (''--path-to-reference-fasta'', VNone),
      (''--help'', VBool False), (''--version'', VBool False)]"

text \<open>The same world, but with the output file of the example already there.\<close>

definition ex_world_file :: world where
  "ex_world_file = ex_world\<lparr>isfile := (\<lambda>p. p = ''/home/u/a__b.vcf.gz'')\<rparr>"

text \<open>The example world without the variables for bgzip and java.\<close>

definition ex_world_missing :: world where
  "ex_world_missing =
     ex_world\<lparr>environ := (environ ex_world)(''PATH_TO_BGZIP'' := None, ''PATH_TO_JAVA'' := None)\<rparr>"

text \<open>The example world with a runner that is interrupted, and with one that fails.\<close>

definition ex_world_interrupted :: world where
  "ex_world_interrupted = ex_world\<lparr>run_pipeline := (\<lambda>ra. Some KeyboardInterrupt)\<rparr>"

definition ex_world_failing :: world where
  "ex_world_failing =
     ex_world\<lparr>run_pipeline := (\<lambda>ra. Some (CalledProcessError 2 ''tabix -h url 1:100-200''))\<rparr>"

section \<open>Properties\<close>

subsection \<open>Strings\<close>

lemma startswith_bed_append:
  "startswith (u @ ''.bed'' @ v) ''.bed'' \<longleftrightarrow> u = [] \<or> startswith u ''.bed''"
proof (cases u)
  case Nil then show ?thesis by (simp add: startswith_def)
next
  case (Cons a u1)
  show ?thesis
  proof (cases u1)
    case Nil with Cons show ?thesis by (auto simp: startswith_def)
  next
    case (Cons b u2)
    note c2 = this
    show ?thesis
    proof (cases u2)
      case Nil with c2 \<open>u = a # u1\<close> show ?thesis by (auto simp: startswith_def)
    next
      case (Cons c u3)
      note c3 = this
      show ?thesis
      proof (cases u3)
        case Nil with c3 c2 \<open>u = a # u1\<close> show ?thesis by (auto simp: startswith_def)
      next
        case (Cons d u4)
        with c3 c2 \<open>u = a # u1\<close> show ?thesis by (simp add: startswith_def)
      qed
    qed
  qed
qed

lemma strip_bed_append:
  "py_replace ''.bed'' [] (u @ ''.bed'' @ v) = py_replace ''.bed'' [] u @ py_replace ''.bed'' [] v"
proof (induction "''.bed''" "[] :: string" u rule: py_replace.induct)
  case 1
  show ?case by (simp add: startswith_def)
next
  case (2 c cs)
  show ?case
  proof (cases "startswith (c # cs) ''.bed''")
    case True
    then obtain r where r: "c # cs = ''.bed'' @ r"
      by (metis append_take_drop_id startswith_def)
    have d: "drop (length ''.bed'') (c # cs) = r" using r by simp
    have "py_replace ''.bed'' [] ((c # cs) @ ''.bed'' @ v) = py_replace ''.bed'' [] (r @ ''.bed'' @ v)"
      using r by (simp add: startswith_def)
    also have "\<dots> = py_replace ''.bed'' [] r @ py_replace ''.bed'' [] v"
      using 2(1) True d by simp
    also have "py_replace ''.bed'' [] r = py_replace ''.bed'' [] (c # cs)"
      using r by (simp add: startswith_def)
    finally show ?thesis .
  next
    case False
    then have "\<not> startswith ((c # cs) @ ''.bed'' @ v) ''.bed''"
      using startswith_bed_append [of "c # cs" v] by simp
    then have "py_replace ''.bed'' [] ((c # cs) @ ''.bed'' @ v) = c # py_replace ''.bed'' [] (cs @ ''.bed'' @ v)"
      by simp
    with False 2(2) show ?thesis by simp
  qed
qed

lemma basename_no_slash: "CHR ''/'' \<notin> set n \<Longrightarrow> basename (d @ ''/'' @ n) = n"
  by (simp add: basename_def takeWhile_append)

lemma endswith_iff: "endswith s p \<longleftrightarrow> (\<exists>q. s = q @ p)"
proof
  assume "endswith s p"
  then have "rev s = rev p @ drop (length p) (rev s)"
    by (metis append_take_drop_id endswith_def)
  then have "s = rev (drop (length p) (rev s)) @ p"
    by (metis rev_append rev_rev_ident)
  then show "\<exists>q. s = q @ p" ..
next
  assume "\<exists>q. s = q @ p"
  then show "endswith s p" by (auto simp: endswith_def)
qed

lemma endswith_append [simp]: "endswith (q @ p) p"
  by (auto simp: endswith_iff)

lemma endswith_vcf_gz: "endswith s ''.vcf'' \<Longrightarrow> endswith (s @ ''.gz'') ''.vcf.gz''"
  by (auto simp: endswith_iff)

lemma not_endswith_vcf: "\<not> endswith (q @ ''.vcf.gz'') ''.vcf''"
  by (simp add: endswith_def)

subsection \<open>The steps of parse_arguments\<close>

lemma and_then_Inl [simp]: "and_then (tr, Inl e) f = (tr, Inl e)"
  by (simp add: and_then_def)

lemma and_then_Inr [simp]:
  "and_then (tr, Inr a) f = (case f a of (tr', x) \<Rightarrow> (tr @ tr', x))"
  by (simp add: and_then_def)

lemma and_then_returns:
  "and_then r f = (tr, Inr b) \<longleftrightarrow>
     (\<exists>tr1 a tr2. r = (tr1, Inr a) \<and> f a = (tr2, Inr b) \<and> tr = tr1 @ tr2)"
  by (cases r; cases "snd r") (auto simp: and_then_def split: prod.splits)

lemma check_version_returns:
  "check_version w a = (tr, Inr b) \<longleftrightarrow>
     tr = [] \<and> b = a \<and> (\<exists>v. a ''--version'' = Some v \<and> \<not> truthy v)"
  by (auto simp: check_version_def split: option.splits sum.splits)


lemma resolve_threads_returns:
  "resolve_threads w a = (tr, Inr b) \<Longrightarrow>
     tr = [] \<and> (\<exists>n. b ''--threads'' = Some (VInt n)) \<and>
     (\<forall>k. k \<noteq> ''--threads'' \<longrightarrow> b k = a k)"
  by (auto simp: resolve_threads_def split: option.splits sum.splits if_splits)

lemma derive_out_returns:
  "derive_out w a = (tr, Inr b) \<Longrightarrow> tr = [] \<and> (\<forall>k. k \<noteq> ''--out'' \<longrightarrow> b k = a k)"
  by (auto simp: derive_out_def split: option.splits sum.splits if_splits)

lemma add_vcf_returns:
  "add_vcf a = (tr, Inr b) \<Longrightarrow>
     tr = [] \<and> (\<forall>k. k \<noteq> ''--out'' \<longrightarrow> b k = a k) \<and>
     (\<exists>s. a ''--out'' = Some (VStr s) \<and>
        b ''--out'' = Some (VStr (if endswith s ''.vcf'' then s else s @ ''.vcf'')))"
  by (auto simp: add_vcf_def split: option.splits val.splits if_splits)

lemma add_gz_returns:
  "add_gz a = (tr, Inr b) \<Longrightarrow>
     tr = [] \<and> (\<forall>k. k \<noteq> ''--out'' \<longrightarrow> b k = a k) \<and>
     (\<exists>u. a ''--unzipped'' = Some u \<and>
        (truthy u \<longrightarrow> b = a) \<and>
        (\<not> truthy u \<longrightarrow> (\<exists>s. a ''--out'' = Some (VStr s) \<and> b ''--out'' = Some (VStr (s @ ''.gz'')))))"
  by (auto simp: add_gz_def split: option.splits val.splits if_splits)

lemma parameter_of_varnames:
  "map parameter_of varnames =
     [''--path-to-bcftools'', ''--path-to-tabix'', ''--path-to-bgzip'', ''--path-to-gatk3'',
      ''--path-to-java'', ''--path-to-reference-fasta'']"
  by (simp add: parameter_of_def varnames_def startswith_def)

lemma env_varname_of_varnames:
  "map env_varname_of varnames =
     [''PATH_TO_BCFTOOLS'', ''PATH_TO_TABIX'', ''PATH_TO_BGZIP'', ''PATH_TO_GATK3'',
      ''PATH_TO_JAVA'', ''PATH_TO_REFERENCE_FASTA'']"
  by (simp add: env_varname_of_def varnames_def upper_def upper_char_def)

lemma resolve_tool_returns:
  "resolve_tool w v a = (tr, Inr b) \<Longrightarrow>
     tr = [] \<and> (\<forall>k. k \<noteq> parameter_of v \<longrightarrow> b k = a k)"
  by (auto simp: resolve_tool_def split: option.splits if_splits)

lemma resolve_tools_returns:
  "resolve_tools w vs a = (tr, Inr b) \<Longrightarrow>
     tr = [] \<and> (\<forall>k. k \<notin> parameter_of ` set vs \<longrightarrow> b k = a k)"
proof (induction vs arbitrary: a tr)
  case Nil
  then show ?case by simp
next
  case (Cons v vs)
  from Cons.prems obtain tr1 a1 tr2 where
    s: "resolve_tool w v a = (tr1, Inr a1)" "resolve_tools w vs a1 = (tr2, Inr b)" "tr = tr1 @ tr2"
    by (auto simp: and_then_returns)
  from resolve_tool_returns [OF s(1)] Cons.IH [OF s(2)] s(3) show ?case by auto
qed

lemma derive_out_value:
  "derive_out w a = (tr, Inr b) \<Longrightarrow>
     \<exists>v. a ''--out'' = Some v \<and>
       (if truthy v then b = a
        else \<exists>i beds. a ''--in'' = Some i \<and> iter_strs i = Inr beds \<and>
               b ''--out'' = Some (VStr (path_join (getcwd w) (out_filename beds))))"
  by (auto simp: derive_out_def split: option.splits sum.splits if_splits)

lemma before_tools_returns:
  assumes "before_tools w args = (tr, Inr a)"
  shows "tr = []"
    and "\<forall>k. k \<noteq> ''--threads'' \<and> k \<noteq> ''--out'' \<longrightarrow> a k = args k"
    and "\<exists>v. args ''--version'' = Some v \<and> \<not> truthy v"
    and "resolve_threads w args = ([], Inr (a(''--out'' := args ''--out'')))"
    and "\<exists>v u base. args ''--out'' = Some v \<and> args ''--unzipped'' = Some u \<and>
           (if truthy v then v = VStr base
            else \<exists>i beds. args ''--in'' = Some i \<and> iter_strs i = Inr beds \<and>
                   base = path_join (getcwd w) (out_filename beds)) \<and>
           a ''--out'' = Some (VStr ((if endswith base ''.vcf'' then base else base @ ''.vcf'') @
                                     (if truthy u then [] else ''.gz'')))"
proof -
  from assms obtain t1 a1 t2 a2 t3 a3 t4 a4 t5 where
    s: "check_version w args = (t1, Inr a1)" "resolve_threads w a1 = (t2, Inr a2)"
       "derive_out w a2 = (t3, Inr a3)" "add_vcf a3 = (t4, Inr a4)" "add_gz a4 = (t5, Inr a)"
       "tr = t1 @ t2 @ t3 @ t4 @ t5"
    unfolding before_tools_def and_then_returns by auto
  from s(1) have v: "t1 = []" "a1 = args" "\<exists>v. args ''--version'' = Some v \<and> \<not> truthy v"
    by (auto simp: check_version_returns)
  note r2 = resolve_threads_returns [OF s(2)]
  note r3 = derive_out_returns [OF s(3)]
  note r4 = add_vcf_returns [OF s(4)]
  note r5 = add_gz_returns [OF s(5)]
  show "tr = []" using s(6) v r2 r3 r4 r5 by simp
  show "\<forall>k. k \<noteq> ''--threads'' \<and> k \<noteq> ''--out'' \<longrightarrow> a k = args k"
    using v r2 r3 r4 r5 by simp
  show "\<exists>v. args ''--version'' = Some v \<and> \<not> truthy v" by fact
  have "a2 = a(''--out'' := args ''--out'')"
  proof
    fix k show "a2 k = (a(''--out'' := args ''--out'')) k"
      using v r2 r3 r4 r5 by (cases "k = ''--out''") auto
  qed
  with s(2) v r2 show "resolve_threads w args = ([], Inr (a(''--out'' := args ''--out'')))" by simp
  have o2: "a2 ''--out'' = args ''--out''" "a2 ''--in'' = args ''--in''" "a4 ''--unzipped'' = args ''--unzipped''"
    using v r2 r3 r4 by auto
  from r4 obtain s3 where s3: "a3 ''--out'' = Some (VStr s3)"
    "a4 ''--out'' = Some (VStr (if endswith s3 ''.vcf'' then s3 else s3 @ ''.vcf''))" by auto
  from r5 o2 obtain u where u: "args ''--unzipped'' = Some u" "truthy u \<longrightarrow> a = a4"
    "\<not> truthy u \<longrightarrow> (\<exists>s. a4 ''--out'' = Some (VStr s) \<and> a ''--out'' = Some (VStr (s @ ''.gz'')))"
    by auto
  have fin: "a ''--out'' = Some (VStr ((if endswith s3 ''.vcf'' then s3 else s3 @ ''.vcf'') @
                                     (if truthy u then [] else ''.gz'')))"
    using s3 u by auto
  from derive_out_value [OF s(3)] s3 o2 have "\<exists>v0. args ''--out'' = Some v0 \<and>
     (if truthy v0 then v0 = VStr s3
            else \<exists>i beds. args ''--in'' = Some i \<and> iter_strs i = Inr beds \<and>
                   s3 = path_join (getcwd w) (out_filename beds))"
    by (auto split: if_splits)
  with u fin show "\<exists>v u base. args ''--out'' = Some v \<and> args ''--unzipped'' = Some u \<and>
           (if truthy v then v = VStr base
            else \<exists>i beds. args ''--in'' = Some i \<and> iter_strs i = Inr beds \<and>
                   base = path_join (getcwd w) (out_filename beds)) \<and>
           a ''--out'' = Some (VStr ((if endswith base ''.vcf'' then base else base @ ''.vcf'') @
                                     (if truthy u then [] else ''.gz'')))"
    by blast
qed

subsection \<open>The loop over the tools\<close>

lemma resolve_tool_missing:
  "a (parameter_of v) \<noteq> None \<Longrightarrow> spec_tool_path w a v = None \<Longrightarrow>
     resolve_tool w v a = ([Print (missing_msg v)], Inl (SystemExit None))"
  by (auto simp: resolve_tool_def spec_tool_path_def split: option.splits if_splits)

lemma resolve_tool_found:
  "spec_tool_path w a v \<noteq> None \<Longrightarrow>
     \<exists>b. resolve_tool w v a = ([], Inr b) \<and> b (parameter_of v) = spec_tool_path w a v \<and>
         (\<forall>k. k \<noteq> parameter_of v \<longrightarrow> b k = a k)"
  by (auto simp: resolve_tool_def spec_tool_path_def split: option.splits if_splits)

lemma spec_tool_path_cong:
  "b (parameter_of v) = a (parameter_of v) \<Longrightarrow> spec_tool_path w b v = spec_tool_path w a v"
  by (simp add: spec_tool_path_def)

lemma resolve_tools_spec:
  assumes "distinct (map parameter_of vs)" and "\<forall>v \<in> set vs. a (parameter_of v) \<noteq> None"
  shows "(case find (\<lambda>v. spec_tool_path w a v = None) vs of
            Some v \<Rightarrow> resolve_tools w vs a = ([Print (missing_msg v)], Inl (SystemExit None))
          | None \<Rightarrow>
              (\<exists>b. resolve_tools w vs a = ([], Inr b) \<and>
                   (\<forall>v \<in> set vs. b (parameter_of v) = spec_tool_path w a v) \<and>
                   (\<forall>k. k \<notin> parameter_of ` set vs \<longrightarrow> b k = a k)))"
  using assms
proof (induction vs arbitrary: a)
  case Nil
  then show ?case by simp
next
  case (Cons v vs)
  show ?case
  proof (cases "spec_tool_path w a v = None")
    case True
    with Cons.prems resolve_tool_missing [of a v w] show ?thesis by simp
  next
    case False
    from resolve_tool_found [OF False] obtain a1 where
      a1: "resolve_tool w v a = ([], Inr a1)" "a1 (parameter_of v) = spec_tool_path w a v"
          "\<forall>k. k \<noteq> parameter_of v \<longrightarrow> a1 k = a k"
      by blast
    have "parameter_of v \<notin> parameter_of ` set vs"
      using Cons.prems(1) by simp
    then have fresh: "\<forall>v' \<in> set vs. parameter_of v' \<noteq> parameter_of v"
      by (metis imageI)
    then have same: "\<forall>v' \<in> set vs. spec_tool_path w a1 v' = spec_tool_path w a v'"
      using a1(3) by (auto intro: spec_tool_path_cong)
    then have f: "find (\<lambda>v. spec_tool_path w a1 v = None) vs = find (\<lambda>v. spec_tool_path w a v = None) vs"
      by (auto intro: find_cong)
    have p1: "distinct (map parameter_of vs)" using Cons.prems(1) by simp
    have p2: "\<forall>v \<in> set vs. a1 (parameter_of v) \<noteq> None"
      using Cons.prems(2) fresh a1(3) by auto
    note IH = Cons.IH [OF p1 p2, unfolded f]
    show ?thesis
    proof (cases "find (\<lambda>v. spec_tool_path w a v = None) vs")
      case None
      with IH obtain b where b: "resolve_tools w vs a1 = ([], Inr b)"
        "\<forall>v \<in> set vs. b (parameter_of v) = spec_tool_path w a1 v"
        "\<forall>k. k \<notin> parameter_of ` set vs \<longrightarrow> b k = a1 k"
        by auto
      have "b (parameter_of v) = spec_tool_path w a v"
        using b(3) fresh a1(2) by (metis image_iff)
      moreover have "\<forall>k. k \<notin> parameter_of ` set (v # vs) \<longrightarrow> b k = a k"
        using b(3) a1(3) by auto
      ultimately show ?thesis using False None a1(1) b same by simp
    next
      case (Some m)
      with IH False a1(1) show ?thesis by auto
    qed
  qed
qed

lemma distinct_parameters: "distinct (map parameter_of varnames)"
  by (simp add: parameter_of_varnames)

lemma parameter_of_image:
  "parameter_of ` set varnames =
     {''--path-to-bcftools'', ''--path-to-tabix'', ''--path-to-bgzip'', ''--path-to-gatk3'',
      ''--path-to-java'', ''--path-to-reference-fasta''}"
proof -
  have "parameter_of ` set varnames = set (map parameter_of varnames)" by simp
  also have "\<dots> = {''--path-to-bcftools'', ''--path-to-tabix'', ''--path-to-bgzip'',
      ''--path-to-gatk3'', ''--path-to-java'', ''--path-to-reference-fasta''}"
    unfolding parameter_of_varnames by simp
  finally show ?thesis .
qed

subsection \<open>The guard, the whole of parse_arguments, and main\<close>

lemma overwrite_guard_returns:
  "overwrite_guard w a = (tr, Inr b) \<Longrightarrow> tr = [] \<and> b = a"
  by (auto simp: overwrite_guard_def split: option.splits val.splits if_splits)

lemma overwrite_guard_key_present:
  "a ''--force'' \<noteq> None \<Longrightarrow> overwrite_guard w a = ([], Inr a)"
  by (auto simp: overwrite_guard_def)

lemma overwrite_guard_key_absent:
  "a ''--force'' = None \<Longrightarrow> a ''--out'' = Some (VStr p) \<Longrightarrow>
     overwrite_guard w a =
       (if isfile w p then ([LogWarning (exists_msg p)], Inl (SystemExit None)) else ([], Inr a))"
  by (simp add: overwrite_guard_def)

lemma resolve_returns:
  assumes "resolve w args = (tr, Inr a)"
  shows "tr = []"
    and "\<exists>a0. before_tools w args = ([], Inr a0) \<and> resolve_tools w varnames a0 = ([], Inr a)"
    and "\<forall>k. k \<noteq> ''--threads'' \<and> k \<noteq> ''--out'' \<and> k \<notin> parameter_of ` set varnames \<longrightarrow> a k = args k"
proof -
  from assms obtain t0 a0 t1 where
    s: "before_tools w args = (t0, Inr a0)" "resolve_tools w varnames a0 = (t1, Inr a)" "tr = t0 @ t1"
    unfolding resolve_def and_then_returns by auto
  note b = before_tools_returns(1,2) [OF s(1)]
  note r = resolve_tools_returns [OF s(2)]
  show "tr = []" using s(3) b r by simp
  show "\<exists>a0. before_tools w args = ([], Inr a0) \<and> resolve_tools w varnames a0 = ([], Inr a)"
    using s b r by auto
  show "\<forall>k. k \<noteq> ''--threads'' \<and> k \<noteq> ''--out'' \<and> k \<notin> parameter_of ` set varnames \<longrightarrow> a k = args k"
    using b r by auto
qed

lemma resolve_out_kept:
  assumes "before_tools w args = (t0, Inr a0)" "resolve_tools w varnames a0 = (t1, Inr a)"
  shows "a ''--out'' = a0 ''--out''"
  using resolve_tools_returns [OF assms(2)] by (simp add: parameter_of_image)

lemma parse_arguments_returns:
  assumes "parse_arguments w args = (tr, Inr a)"
  shows "tr = []" and "resolve w args = ([], Inr a)"
proof -
  from assms obtain t0 a0 t1 where
    s: "resolve w args = (t0, Inr a0)" "overwrite_guard w a0 = (t1, Inr a)" "tr = t0 @ t1"
    unfolding parse_arguments_def and_then_returns by auto
  from resolve_returns(1) [OF s(1)] overwrite_guard_returns [OF s(2)] s
  show "tr = []" and "resolve w args = ([], Inr a)" by auto
qed

lemma main_parse_raises:
  "parse_arguments w args = (tr, Inl e) \<Longrightarrow> main w args = (tr, Inl e)"
  by (simp add: main_def)

lemma main_parse_returns:
  "parse_arguments w args = (tr, Inr a) \<Longrightarrow> a ''--debug'' = Some d \<Longrightarrow>
     main w args =
       ([LogInstall (if truthy d then ''DEBUG'' else ''INFO'')] @ fst (try_statement w a),
        snd (try_statement w a))"
  using parse_arguments_returns(1) [of w args tr a]
  by (simp add: main_def split: prod.splits)

lemma try_statement_split:
  "try_statement w a =
     (fst (try_body w a) @
      (case snd (try_body w a) of None \<Rightarrow> [] | Some e \<Rightarrow> fst (except_clauses e)) @
      fst (finally_clause w a),
      case snd (finally_clause w a) of
        Some e \<Rightarrow> Inl e
      | None \<Rightarrow>
         (case snd (try_body w a) of
            None \<Rightarrow> Inr ()
          | Some e \<Rightarrow> (case snd (except_clauses e) of Some e' \<Rightarrow> Inl e' | None \<Rightarrow> Inr ())))"
  by (auto simp: try_statement_def split: prod.splits option.splits)

lemma except_clauses_no_cleanup: "CleanupTempFiles \<notin> set (fst (except_clauses e))"
  by (cases e) auto

lemma try_body_no_cleanup: "CleanupTempFiles \<notin> set (fst (try_body w a))"
  by (auto simp: try_body_def split: option.splits)

lemma finally_clause_cleanup:
  "a ''--no-cleanup'' = Some n \<Longrightarrow>
     finally_clause w a =
       (if truthy n then ([LogInfo ''No cleanup requested, leaving the temp files.''], None)
        else ([LogInfo ''Cleaning up temporary files.'', CleanupTempFiles], cleanup_temp_files w))"
  by (simp add: finally_clause_def)

lemma try_body_called:
  "find (\<lambda>k. a k = None) run_keys = None \<Longrightarrow>
     try_body w a = ([RunPipeline (call_args a)], run_pipeline w (call_args a))"
  by (simp add: try_body_def)

subsection \<open>The derived file name\<close>

lemma py_replace_subset: "set (py_replace old [] s) \<subseteq> set s"
proof (induction old "[] :: string" s rule: py_replace.induct)
  case (1 old)
  show ?case by simp
next
  case (2 old c cs)
  show ?case
  proof (cases "old \<noteq> [] \<and> startswith (c # cs) old")
    case True
    with 2(1) have "set (py_replace old [] (c # cs)) \<subseteq> set (drop (length old) (c # cs))"
      by simp
    also have "\<dots> \<subseteq> set (c # cs)" by (rule set_drop_subset)
    finally show ?thesis .
  next
    case False
    with 2(2) show ?thesis by auto
  qed
qed

lemma basename_slash_free: "CHR ''/'' \<notin> set (basename p)"
  by (auto simp: basename_def dest: set_takeWhileD)

lemma str_join_subset: "set (str_join sep xs) \<subseteq> set sep \<union> \<Union> (set ` set xs)"
  by (induction sep xs rule: str_join.induct) auto

lemma out_filename_slash_free: "CHR ''/'' \<notin> set (out_filename beds)"
proof
  assume "CHR ''/'' \<in> set (out_filename beds)"
  with str_join_subset [of "''__''" "map (\<lambda>bed. py_replace ''.bed'' [] (basename bed)) beds"]
  obtain bed where "CHR ''/'' \<in> set (py_replace ''.bed'' [] (basename bed))"
    by (auto simp: out_filename_def)
  with py_replace_subset [of "''.bed''" "basename bed"] basename_slash_free [of bed]
  show False by auto
qed

lemma endswith_behind_sep:
  assumes "c \<notin> set f" and "c \<notin> set p"
  shows "endswith (x @ c # f) p \<longleftrightarrow> endswith f p"
proof (cases "length p \<le> length f")
  case True
  then show ?thesis by (simp add: endswith_def)
next
  case False
  have short: "\<not> endswith f p"
    using False by (auto simp: endswith_iff)
  have "\<not> endswith (x @ c # f) p"
  proof
    assume "endswith (x @ c # f) p"
    then obtain q where "x @ c # f = q @ p" by (auto simp: endswith_iff)
    then have "rev (x @ c # f) = rev (q @ p)" by simp
    then have "rev f @ c # rev x = rev p @ rev q" by simp
    then have "(rev f @ c # rev x) ! length f = (rev p @ rev q) ! length f" by simp
    then have "c = rev p ! length f" using False by (simp add: nth_append)
    moreover have "rev p ! length f \<in> set (rev p)" using False by (intro nth_mem) simp
    ultimately show False using assms(2) by simp
  qed
  with short show ?thesis by simp
qed

lemma endswith_behind_slash:
  assumes "CHR ''/'' \<notin> set f"
  shows "endswith (x @ ''/'' @ f) ''.vcf'' \<longleftrightarrow> endswith f ''.vcf''"
  using endswith_behind_sep [OF assms, of "''.vcf''" x] by simp

lemma path_join_endswith:
  assumes "CHR ''/'' \<notin> set f"
  shows "endswith (path_join c f) ''.vcf'' \<longleftrightarrow> endswith f ''.vcf''"
proof -
  have ns: "\<not> startswith f ''/''"
    using assms by (cases f) (auto simp: startswith_def)
  show ?thesis
  proof (cases "c = []")
    case True
    with ns show ?thesis by (simp add: path_join_def)
  next
    case False
    show ?thesis
    proof (cases "endswith c ''/''")
      case True
      then obtain c' where "c = c' @ ''/''" by (auto simp: endswith_iff)
      with ns True endswith_behind_slash [OF assms, of c'] show ?thesis
        by (simp add: path_join_def)
    next
      case e: False
      with ns False endswith_behind_slash [OF assms, of c] show ?thesis
        by (simp add: path_join_def)
    qed
  qed
qed

subsection \<open>What parse_arguments leaves and logs\<close>

lemma resolve_out_is_string:
  assumes "resolve w args = (tr, Inr a)"
  shows "\<exists>p. a ''--out'' = Some (VStr p)"
proof -
  from resolve_returns(2) [OF assms] obtain a0 where
    a0: "before_tools w args = ([], Inr a0)" "resolve_tools w varnames a0 = ([], Inr a)"
    by blast
  from before_tools_returns(5) [OF a0(1)] resolve_out_kept [OF a0] show ?thesis by auto
qed

lemma resolve_force_kept:
  assumes "resolve w args = (tr, Inr a)"
  shows "a ''--force'' = args ''--force''"
  using resolve_returns(3) [OF assms] by (simp add: parameter_of_image)

lemma and_then_events:
  assumes "list_all P (fst r)" and "\<And>a. list_all P (fst (f a))"
  shows "list_all P (fst (and_then r f))"
proof (cases r)
  case (Pair tr x)
  show ?thesis
  proof (cases x)
    case (Inl e)
    with Pair assms(1) show ?thesis by simp
  next
    case (Inr a)
    with Pair assms(1) assms(2) [of a] show ?thesis
      by (cases "f a") simp
  qed
qed

lemma check_version_events: "list_all is_print (fst (check_version w a))"
  by (simp add: check_version_def split: option.splits sum.splits)

lemma resolve_threads_events: "fst (resolve_threads w a) = []"
  by (simp add: resolve_threads_def split: option.splits sum.splits)

lemma derive_out_events: "fst (derive_out w a) = []"
  by (simp add: derive_out_def split: option.splits sum.splits)

lemma add_vcf_events: "fst (add_vcf a) = []"
  by (simp add: add_vcf_def split: option.splits val.splits)

lemma add_gz_events: "fst (add_gz a) = []"
  by (simp add: add_gz_def split: option.splits val.splits)

lemma resolve_tool_prints: "list_all is_print (fst (resolve_tool w v a))"
  by (simp add: resolve_tool_def split: option.splits)

lemma resolve_tools_prints: "list_all is_print (fst (resolve_tools w vs a))"
  by (induction vs arbitrary: a) (auto intro: and_then_events resolve_tool_prints)

lemma resolve_prints: "list_all is_print (fst (resolve w a))"
  unfolding resolve_def before_tools_def
  by (intro and_then_events check_version_events resolve_tools_prints)
     (simp_all add: resolve_threads_events derive_out_events add_vcf_events add_gz_events)

lemma overwrite_guard_events:
  "fst (overwrite_guard w a) = [] \<or> (\<exists>p. fst (overwrite_guard w a) = [LogWarning (exists_msg p)])"
  by (auto simp: overwrite_guard_def split: option.splits val.splits)

lemma parse_arguments_events:
  "list_all (\<lambda>e. is_print e \<or> (\<exists>p. e = LogWarning (exists_msg p))) (fst (parse_arguments w a))"
  unfolding parse_arguments_def
proof (rule and_then_events)
  show "list_all (\<lambda>e. is_print e \<or> (\<exists>p. e = LogWarning (exists_msg p))) (fst (resolve w a))"
    using resolve_prints [of w a] by (simp add: list_all_iff)
  show "list_all (\<lambda>e. is_print e \<or> (\<exists>p. e = LogWarning (exists_msg p))) (fst (overwrite_guard w b))" for b
    using overwrite_guard_events [of w b] by auto
qed

lemma parse_arguments_no_cleanup: "CleanupTempFiles \<notin> set (fst (parse_arguments w a))"
  using parse_arguments_events [of w a] by (auto simp: list_all_iff)

subsection \<open>Only the guard reads the file system\<close>

lemma py_int_isfile [simp]: "py_int (w\<lparr>isfile := f\<rparr>) v = py_int w v"
  by (cases v) simp_all

lemma resolve_tools_isfile [simp]: "resolve_tools (w\<lparr>isfile := f\<rparr>) vs a = resolve_tools w vs a"
proof (induction vs arbitrary: a)
  case Nil
  show ?case by simp
next
  case (Cons v vs)
  have "resolve_tool (w\<lparr>isfile := f\<rparr>) v a = resolve_tool w v a"
    by (simp add: resolve_tool_def split: option.splits)
  moreover have "resolve_tools (w\<lparr>isfile := f\<rparr>) vs = resolve_tools w vs"
    using Cons.IH by (intro ext)
  ultimately show ?case by simp
qed

lemma resolve_isfile [simp]: "resolve (w\<lparr>isfile := f\<rparr>) a = resolve w a"
proof -
  have "check_version (w\<lparr>isfile := f\<rparr>) = check_version w"
    by (intro ext) (simp add: check_version_def split: option.splits)
  moreover have "resolve_threads (w\<lparr>isfile := f\<rparr>) = resolve_threads w"
    by (intro ext) (simp add: resolve_threads_def split: option.splits)
  moreover have "derive_out (w\<lparr>isfile := f\<rparr>) = derive_out w"
    by (intro ext) (simp add: derive_out_def split: option.splits sum.splits)
  moreover have "resolve_tools (w\<lparr>isfile := f\<rparr>) varnames = resolve_tools w varnames"
    by (intro ext) simp
  ultimately show ?thesis by (simp add: resolve_def before_tools_def)
qed

lemma try_statement_isfile [simp]: "try_statement (w\<lparr>isfile := f\<rparr>) a = try_statement w a"
proof -
  have "try_body (w\<lparr>isfile := f\<rparr>) a = try_body w a"
    by (simp add: try_body_def split: option.splits)
  moreover have "finally_clause (w\<lparr>isfile := f\<rparr>) a = finally_clause w a"
    by (simp add: finally_clause_def split: option.splits)
  ultimately show ?thesis by (simp add: try_statement_def)
qed

lemma parse_arguments_guard_idle:
  assumes "args ''--force'' \<noteq> None"
  shows "parse_arguments w args = resolve w args"
proof (cases "resolve w args")
  case (Pair tr x)
  show ?thesis
  proof (cases x)
    case (Inl e)
    with Pair show ?thesis by (simp add: parse_arguments_def)
  next
    case (Inr a)
    with Pair have r: "resolve w args = (tr, Inr a)" by simp
    from resolve_force_kept [OF r] assms have "overwrite_guard w a = ([], Inr a)"
      by (simp add: overwrite_guard_key_present)
    with r show ?thesis by (simp add: parse_arguments_def)
  qed
qed

lemma docopt_force: "docopt_result args \<Longrightarrow> \<exists>b. args ''--force'' = Some (VBool b)"
  by (auto simp: docopt_result_def flag_keys_def elim: is_flag.elims)

lemma missing_msg_text:
  "missing_msg v = ''Missing either '' @ parameter_of v @ '' or ENV variable '' @ env_varname_of v"
  by (simp add: missing_msg_def)

lemma before_tools_tool_keys:
  assumes "before_tools w args = (tr, Inr a)" and "v \<in> set varnames"
  shows "a (parameter_of v) = args (parameter_of v)"
proof -
  from assms(2) have "parameter_of v \<in> parameter_of ` set varnames" by simp
  then have "parameter_of v \<noteq> ''--threads'' \<and> parameter_of v \<noteq> ''--out''"
    unfolding parameter_of_image by auto
  with before_tools_returns(2) [OF assms(1)] show ?thesis by simp
qed

lemma before_tools_spec_tool_path:
  assumes "before_tools w args = (tr, Inr a)" and "v \<in> set varnames"
  shows "spec_tool_path w a v = spec_tool_path w args v"
  using before_tools_tool_keys [OF assms] by (rule spec_tool_path_cong)

subsection \<open>The events of main\<close>

lemma parse_arguments_keeps:
  assumes "parse_arguments w args = (tr, Inr a)"
  shows "a ''--debug'' = args ''--debug''" and "a ''--no-cleanup'' = args ''--no-cleanup''"
  using resolve_returns(3) [OF parse_arguments_returns(2) [OF assms]]
  by (simp_all add: parameter_of_image)

lemma main_events_split:
  assumes "parse_arguments w args = (tr, Inr a)" and "a ''--debug'' = Some d"
  shows "fst (main w args) =
     (LogInstall (if truthy d then ''DEBUG'' else ''INFO'') # fst (try_body w a) @
      (case snd (try_body w a) of None \<Rightarrow> [] | Some e \<Rightarrow> fst (except_clauses e))) @
     fst (finally_clause w a)"
  using main_parse_returns [OF assms] by (simp add: try_statement_split)

lemma count_cleanup_before_finally:
  "count_list (LogInstall l # fst (try_body w a) @
      (case snd (try_body w a) of None \<Rightarrow> [] | Some e \<Rightarrow> fst (except_clauses e)))
     CleanupTempFiles = 0"
  using try_body_no_cleanup [of w a] except_clauses_no_cleanup
  by (auto simp: count_list_0_iff split: option.splits)

subsection \<open>The thread count\<close>

lemma parse_arguments_threads:
  assumes "parse_arguments w args = (tr, Inr a)"
  shows "\<exists>b. resolve_threads w args = ([], Inr b) \<and> a ''--threads'' = b ''--threads''"
proof -
  from resolve_returns(2) [OF parse_arguments_returns(2) [OF assms]] obtain a0 where
    a0: "before_tools w args = ([], Inr a0)" "resolve_tools w varnames a0 = ([], Inr a)"
    by blast
  from resolve_tools_returns [OF a0(2)] have "a ''--threads'' = a0 ''--threads''"
    by (simp add: parameter_of_image)
  with before_tools_returns(4) [OF a0(1)] show ?thesis by simp
qed

lemma resolve_threads_number:
  "args ''--threads'' = Some (VStr s) \<Longrightarrow> s \<noteq> [] \<Longrightarrow> int_of_str w s = Some n \<Longrightarrow>
     resolve_threads w args = ([], Inr (args(''--threads'' \<mapsto> VInt n)))"
  by (simp add: resolve_threads_def)

lemma resolve_threads_default:
  "args ''--threads'' = Some VNone \<or> args ''--threads'' = Some (VStr []) \<Longrightarrow>
     resolve_threads w args = ([], Inr (args(''--threads'' \<mapsto> VInt 6)))"
  by (auto simp: resolve_threads_def defaults_threads_def)

lemma resolve_threads_not_a_number:
  "args ''--threads'' = Some (VStr s) \<Longrightarrow> s \<noteq> [] \<Longrightarrow> int_of_str w s = None \<Longrightarrow>
     resolve_threads w args = ([], Inl ValueError)"
  by (simp add: resolve_threads_def)

subsection \<open>The ways out and their exit codes\<close>

lemma and_then_outcome:
  assumes "snd r \<noteq> Inl x" and "\<And>a. snd (f a) \<noteq> Inl x"
  shows "snd (and_then r f) \<noteq> Inl x"
proof (cases r)
  case (Pair tr y)
  show ?thesis
  proof (cases y)
    case (Inl e)
    with Pair assms(1) show ?thesis by simp
  next
    case (Inr a)
    with Pair assms(2) [of a] show ?thesis by (cases "f a") simp
  qed
qed

lemma version_msg_raises: "version_msg info = Inl e \<Longrightarrow> \<exists>k. e = KeyError k"
  by (auto simp: version_msg_def split: option.splits)

lemma check_version_code: "snd (check_version w a) \<noteq> Inl (SystemExit (Some n))"
  by (auto simp: check_version_def split: option.splits sum.splits dest: version_msg_raises)

lemma py_int_raises: "py_int w v = Inl e \<Longrightarrow> e = ValueError \<or> e = TypeError"
  by (cases v) (auto split: option.splits)

lemma resolve_threads_code: "snd (resolve_threads w a) \<noteq> Inl (SystemExit (Some n))"
  by (auto simp: resolve_threads_def split: option.splits sum.splits dest: py_int_raises)

lemma iter_strs_raises: "iter_strs v = Inl e \<Longrightarrow> e = TypeError"
  by (cases v) auto

lemma derive_out_code: "snd (derive_out w a) \<noteq> Inl (SystemExit (Some n))"
  by (auto simp: derive_out_def split: option.splits sum.splits dest: iter_strs_raises)

lemma add_vcf_code: "snd (add_vcf a) \<noteq> Inl (SystemExit (Some n))"
  by (auto simp: add_vcf_def split: option.splits val.splits)

lemma add_gz_code: "snd (add_gz a) \<noteq> Inl (SystemExit (Some n))"
  by (auto simp: add_gz_def split: option.splits val.splits)

lemma resolve_tool_code: "snd (resolve_tool w v a) \<noteq> Inl (SystemExit (Some n))"
  by (auto simp: resolve_tool_def split: option.splits)

lemma resolve_tools_code: "snd (resolve_tools w vs a) \<noteq> Inl (SystemExit (Some n))"
proof (induction vs arbitrary: a)
  case Nil
  show ?case by simp
next
  case (Cons v vs)
  show ?case
    unfolding resolve_tools.simps
    by (rule and_then_outcome [OF resolve_tool_code Cons.IH])
qed

lemma overwrite_guard_code: "snd (overwrite_guard w a) \<noteq> Inl (SystemExit (Some n))"
  by (auto simp: overwrite_guard_def split: option.splits val.splits)

lemma parse_arguments_code: "snd (parse_arguments w a) \<noteq> Inl (SystemExit (Some n))"
  unfolding parse_arguments_def resolve_def before_tools_def
  by (intro and_then_outcome check_version_code resolve_threads_code derive_out_code
      add_vcf_code add_gz_code resolve_tools_code overwrite_guard_code)

lemma except_clauses_code:
  "e \<noteq> SystemExit (Some n) \<Longrightarrow> snd (except_clauses e) \<noteq> Some (SystemExit (Some n))"
  by (cases e) auto

lemma try_statement_code:
  assumes "\<forall>ra. run_pipeline w ra \<noteq> Some (SystemExit (Some n))"
    and "cleanup_temp_files w \<noteq> Some (SystemExit (Some n))"
  shows "snd (try_statement w a) \<noteq> Inl (SystemExit (Some n))"
proof -
  have f: "snd (finally_clause w a) \<noteq> Some (SystemExit (Some n))"
    using assms(2) by (auto simp: finally_clause_def split: option.splits)
  have b: "snd (try_body w a) \<noteq> Some (SystemExit (Some n))"
    using assms(1) by (auto simp: try_body_def split: option.splits)
  show ?thesis
    unfolding try_statement_split using f b except_clauses_code [of _ n]
    by (auto split: option.splits)
qed

lemma main_code:
  assumes "\<forall>ra. run_pipeline w ra \<noteq> Some (SystemExit (Some n))"
    and "cleanup_temp_files w \<noteq> Some (SystemExit (Some n))"
  shows "snd (main w a) \<noteq> Inl (SystemExit (Some n))"
  unfolding main_def
proof (rule and_then_outcome [OF parse_arguments_code])
  fix b
  show "snd (case b ''--debug'' of None \<Rightarrow> ([], Inl (KeyError ''--debug''))
         | Some d \<Rightarrow> and_then ([LogInstall (if truthy d then ''DEBUG'' else ''INFO'')], Inr ())
              (\<lambda>_. try_statement w b)) \<noteq> Inl (SystemExit (Some n))"
    using try_statement_code [OF assms, of b]
    by (cases "try_statement w b") (auto split: option.splits)
qed

lemma version_exit:
  "args ''--version'' = Some ver \<Longrightarrow> truthy ver \<Longrightarrow> version_msg (PACKAGE_INFO w) = Inr m \<Longrightarrow>
     main w args = ([Print m], Inl (SystemExit None))"
  by (simp add: main_def parse_arguments_def resolve_def before_tools_def check_version_def)

lemma missing_tool_exit:
  assumes "before_tools w args = (tr, Inr a)"
    and "\<forall>v \<in> set varnames. args (parameter_of v) \<noteq> None"
    and "find (\<lambda>v. spec_tool_path w args v = None) varnames = Some v"
  shows "main w args = ([Print (missing_msg v)], Inl (SystemExit None))"
proof -
  from before_tools_returns(1) [OF assms(1)] have tr: "tr = []" .
  have keys: "\<forall>v \<in> set varnames. a (parameter_of v) \<noteq> None"
    using assms(2) before_tools_tool_keys [OF assms(1)] by simp
  have "\<forall>v \<in> set varnames. spec_tool_path w a v = spec_tool_path w args v"
    using before_tools_spec_tool_path [OF assms(1)] by simp
  then have "find (\<lambda>v. spec_tool_path w a v = None) varnames =
             find (\<lambda>v. spec_tool_path w args v = None) varnames"
    by (auto intro: find_cong)
  with resolve_tools_spec [OF distinct_parameters keys, of w] assms(3)
  have "resolve_tools w varnames a = ([Print (missing_msg v)], Inl (SystemExit None))"
    by simp
  with assms(1) tr have "parse_arguments w args = ([Print (missing_msg v)], Inl (SystemExit None))"
    by (simp add: parse_arguments_def resolve_def)
  then show ?thesis by (rule main_parse_raises)
qed

lemma existing_output_exit:
  assumes "resolve w args = (tr, Inr a)" and "args ''--force'' = None"
    and "a ''--out'' = Some (VStr p)" and "isfile w p"
  shows "main w args = ([LogWarning (exists_msg p)], Inl (SystemExit None))"
proof -
  from resolve_returns(1) [OF assms(1)] have tr: "tr = []" .
  from resolve_force_kept [OF assms(1)] assms(2) have "a ''--force'' = None" by simp
  with assms tr have "parse_arguments w args = ([LogWarning (exists_msg p)], Inl (SystemExit None))"
    by (simp add: parse_arguments_def overwrite_guard_key_absent)
  then show ?thesis by (rule main_parse_raises)
qed

lemma caught_exit:
  assumes "parse_arguments w args = (tr, Inr a)" and "a ''--debug'' = Some d"
    and "find (\<lambda>k. a k = None) run_keys = None" and "a ''--no-cleanup'' = Some n"
    and "truthy n \<or> cleanup_temp_files w = None"
    and "run_pipeline w (call_args a) = Some KeyboardInterrupt \<or>
         run_pipeline w (call_args a) = Some (CalledProcessError code cmd)"
  shows "snd (main w args) = Inl (SystemExit None)"
  unfolding main_parse_returns [OF assms(1,2)] try_statement_split
    try_body_called [where a = a and w = w, OF assms(3)]
    finally_clause_cleanup [where a = a and n = n and w = w, OF assms(4)]
  using assms(5,6) by auto

subsection \<open>The example run, evaluated\<close>

lemmas run_defs = parse_arguments_def resolve_def before_tools_def check_version_def
  resolve_threads_def derive_out_def add_vcf_def add_gz_def overwrite_guard_def
  resolve_tool_def varnames_def parameter_of_def env_varname_of_def upper_def upper_char_def
  out_filename_def basename_def path_join_def startswith_def endswith_def defaults_threads_def
  ex_world_def ex_arguments_def

lemma ex_returns: "\<exists>a. parse_arguments ex_world ex_arguments = ([], Inr a)"
  by (simp add: run_defs)

lemma ex_unzipped_returns:
  "\<exists>a. parse_arguments ex_world (ex_arguments(''--unzipped'' \<mapsto> VBool True)) = ([], Inr a)"
  by (simp add: run_defs)

lemma ex_out_returns:
  "\<exists>a. parse_arguments ex_world (ex_arguments(''--out'' \<mapsto> VStr ''calls.vcf.gz'')) = ([], Inr a)"
  by (simp add: run_defs)

lemmas main_defs = main_def try_statement_def try_body_def finally_clause_def run_keys_def
  call_args_def

lemma ex_no_key_resolves:
  "\<exists>a. resolve ex_world_file (ex_arguments(''--force'' := None)) = ([], Inr a) \<and>
       a ''--out'' = Some (VStr ''/home/u/a__b.vcf.gz'')"
  by (simp add: run_defs ex_world_file_def)

lemma ex_key_resolves:
  "\<exists>a. resolve ex_world_file ex_arguments = ([], Inr a)"
  by (simp add: run_defs ex_world_file_def)

lemma ex_docopt: "docopt_result ex_arguments"
  by (simp add: docopt_result_def ex_arguments_def flag_keys_def value_keys_def)

lemma ex_main:
  "main ex_world ex_arguments =
     ([LogInstall ''INFO'',
       RunPipeline
        \<lparr>bedfiles = VList [''a.bed'', ''b.bed''], threads = VInt 6,
         outfile = VStr ''/home/u/a__b.vcf.gz'', gzip_output = True, dry_run = VBool False,
         path_to_bcftools = VStr ''/opt/bcftools'', path_to_java = VStr ''/opt/java'',
         path_to_tabix = VStr ''/opt/tabix'', path_to_gatk3 = VStr ''/opt/gatk3.jar'',
         path_to_bgzip = VStr ''/opt/bgzip'', path_to_reference_fasta = VStr ''/opt/ref.fa''\<rparr>,
       LogInfo ''Cleaning up temporary files.'', CleanupTempFiles],
      Inr ())"
  by (simp add: run_defs main_defs)

lemma ex_missing_before_tools:
  "\<exists>a. before_tools ex_world_missing
         (ex_arguments(''--path-to-bcftools'' \<mapsto> VStr ''/usr/bin/bcftools'')) = ([], Inr a)"
  by (simp add: run_defs ex_world_missing_def)

lemma ex_missing_first:
  "find (\<lambda>v. spec_tool_path ex_world_missing
             (ex_arguments(''--path-to-bcftools'' \<mapsto> VStr ''/usr/bin/bcftools'')) v = None)
     varnames = Some ''bgzip''"
  by (simp add: spec_tool_path_def run_defs ex_world_missing_def)

lemma ex_interrupted_returns:
  "\<exists>a. parse_arguments ex_world_interrupted ex_arguments = ([], Inr a)"
  by (simp add: run_defs ex_world_interrupted_def)

lemma ex_interrupted_no_cleanup_returns:
  "\<exists>a. parse_arguments ex_world_interrupted (ex_arguments(''--no-cleanup'' \<mapsto> VBool True))
         = ([], Inr a)"
  by (simp add: run_defs ex_world_interrupted_def)

lemma ex_failing_returns:
  "\<exists>a. parse_arguments ex_world_failing ex_arguments = ([], Inr a) \<and>
       a ''--debug'' = Some (VBool False) \<and> a ''--no-cleanup'' = Some (VBool False) \<and>
       find (\<lambda>k. a k = None) run_keys = None"
  by (simp add: run_defs ex_world_failing_def run_keys_def)

lemma ex_threads_returns:
  "\<exists>a. parse_arguments ex_world (ex_arguments(''--threads'' \<mapsto> VStr ''8'')) = ([], Inr a)"
  by (simp add: run_defs dec_int_def)

lemma ex_version_msg:
  "version_msg (PACKAGE_INFO ex_world) =
     Inr (''bed_to_tabix 1.0 (2017) by biocodices'' @ [CHR 0x0A] @ ''Check: github'')"
  by (simp add: version_msg_def version_keys_def ex_world_def)

subsection \<open>Input names with an occurrence of .bed\<close>

lemma basename_behind_dir:
  assumes "CHR ''/'' \<notin> set n" and "d = [] \<or> endswith d ''/''"
  shows "basename (d @ n) = n"
proof (cases "d = []")
  case True
  have "\<forall>x \<in> set (rev n). x \<noteq> CHR ''/''" using assms(1) by auto
  then have "takeWhile (\<lambda>c. c \<noteq> CHR ''/'') (rev n) = rev n"
    by (simp only: takeWhile_eq_all_conv)
  then have "basename n = n" by (simp only: basename_def rev_rev_ident)
  with True show ?thesis by simp
next
  case False
  with assms(2) obtain d' where "d = d' @ ''/''" by (auto simp: endswith_iff)
  with basename_no_slash [OF assms(1), of d'] show ?thesis by simp
qed

lemma bed_piece_removed:
  assumes "CHR ''/'' \<notin> set (u @ t)" and "d = [] \<or> endswith d ''/''"
  shows "py_replace ''.bed'' [] (basename (d @ u @ ''.bed'' @ t)) =
         py_replace ''.bed'' [] u @ py_replace ''.bed'' [] t"
proof -
  have "CHR ''/'' \<notin> set (u @ ''.bed'' @ t)" using assms(1) by simp
  from basename_behind_dir [OF this assms(2)]
  have bn: "basename (d @ u @ ''.bed'' @ t) = u @ ''.bed'' @ t" .
  show ?thesis unfolding bn by (rule strip_bed_append)
qed

lemma out_filename_pieces:
  assumes "\<forall>(d, u, t) \<in> set ps. (d = [] \<or> endswith d ''/'') \<and> CHR ''/'' \<notin> set (u @ t)"
  shows "out_filename (map (\<lambda>(d, u, t). d @ u @ ''.bed'' @ t) ps) =
         str_join ''__'' (map (\<lambda>(d, u, t). py_replace ''.bed'' [] u @ py_replace ''.bed'' [] t) ps)"
proof -
  have "map (\<lambda>bed. py_replace ''.bed'' [] (basename bed)) (map (\<lambda>(d, u, t). d @ u @ ''.bed'' @ t) ps) =
        map (\<lambda>(d, u, t). py_replace ''.bed'' [] u @ py_replace ''.bed'' [] t) ps"
    unfolding map_map
  proof (rule map_cong [OF refl])
    fix x assume x: "x \<in> set ps"
    obtain d u t where p: "x = (d, u, t)" by (cases x)
    with x assms have "(d = [] \<or> endswith d ''/'') \<and> CHR ''/'' \<notin> set (u @ t)" by auto
    then have "py_replace ''.bed'' [] (basename (d @ u @ ''.bed'' @ t)) =
         py_replace ''.bed'' [] u @ py_replace ''.bed'' [] t"
      by (intro bed_piece_removed) simp_all
    with p show "((\<lambda>bed. py_replace ''.bed'' [] (basename bed)) \<circ> (\<lambda>(d, u, t). d @ u @ ''.bed'' @ t)) x =
       (case x of (d, u, t) \<Rightarrow> py_replace ''.bed'' [] u @ py_replace ''.bed'' [] t)"
      by simp
  qed
  then show ?thesis unfolding out_filename_def by (rule arg_cong)
qed

lemma derive_out_derives:
  "args ''--out'' = Some v \<Longrightarrow> \<not> truthy v \<Longrightarrow> args ''--in'' = Some (VList beds) \<Longrightarrow>
     derive_out w args =
       ([], Inr (args(''--out'' \<mapsto> VStr (path_join (getcwd w) (out_filename beds)))))"
  by (simp add: derive_out_def)

lemma parse_arguments_derived:
  assumes "parse_arguments w args = (tr, Inr a)" and "args ''--out'' = Some v" and "\<not> truthy v"
    and "args ''--in'' = Some (VList beds)" and "args ''--unzipped'' = Some z"
  shows "a ''--out'' =
       Some (VStr (path_join (getcwd w) (out_filename beds) @
                   (if endswith (out_filename beds) ''.vcf'' then [] else ''.vcf'') @
                   (if truthy z then [] else ''.gz'')))"
proof -
  from resolve_returns(2) [OF parse_arguments_returns(2) [OF assms(1)]] obtain a0 where
    a0: "before_tools w args = ([], Inr a0)" "resolve_tools w varnames a0 = ([], Inr a)"
    by blast
  let ?base = "path_join (getcwd w) (out_filename beds)"
  from before_tools_returns(5) [OF a0(1)] assms(2-5)
  have "a0 ''--out'' = Some (VStr ((if endswith ?base ''.vcf'' then ?base else ?base @ ''.vcf'') @
                                     (if truthy z then [] else ''.gz'')))"
    by auto
  moreover have "endswith ?base ''.vcf'' \<longleftrightarrow> endswith (out_filename beds) ''.vcf''"
    by (rule path_join_endswith [OF out_filename_slash_free])
  ultimately show ?thesis using resolve_out_kept [OF a0] by simp
qed

lemma ex_bed_returns:
  "\<exists>a. parse_arguments ex_world
         (ex_arguments(''--in'' \<mapsto> VList [''my.bedfile.bed'', ''/data/x.bed.bed''])) = ([], Inr a)"
  by (simp add: run_defs)

section \<open>The claims\<close>

text \<open>
  Claim C1. Once the resolution has reached the guard (nothing before it has exited or
  raised), with the output path resolved to \<open>p\<close>: if the key \<^verbatim>\<open>--force\<close> is not in the
  mapping and the file \<open>p\<close> exists, \<^verbatim>\<open>parse_arguments\<close> logs the warning and exits, and
  \<^verbatim>\<open>main\<close> ends there, the runner not called; if the key is in the mapping, whatever
  its value and whether or not the file exists, \<^verbatim>\<open>parse_arguments\<close> returns the mapping.
\<close>

theorem guard_on_key_absence:
  "resolve w args = (tr, Inr a) \<longrightarrow>
     (\<exists>p. a ''--out'' = Some (VStr p) \<and>
        (args ''--force'' = None \<and> isfile w p \<longrightarrow>
           parse_arguments w args = ([LogWarning (exists_msg p)], Inl (SystemExit None)) \<and>
           main w args = ([LogWarning (exists_msg p)], Inl (SystemExit None))) \<and>
        (args ''--force'' = None \<and> \<not> isfile w p \<longrightarrow> parse_arguments w args = ([], Inr a)) \<and>
        (args ''--force'' \<noteq> None \<longrightarrow> parse_arguments w args = ([], Inr a)))"
proof
  assume r: "resolve w args = (tr, Inr a)"
  from resolve_returns(1) [OF r] have tr: "tr = []" .
  from resolve_out_is_string [OF r] obtain p where p: "a ''--out'' = Some (VStr p)" ..
  note f = resolve_force_kept [OF r]
  have 1: "parse_arguments w args = ([LogWarning (exists_msg p)], Inl (SystemExit None)) \<and>
           main w args = ([LogWarning (exists_msg p)], Inl (SystemExit None))"
    if "args ''--force'' = None \<and> isfile w p"
  proof -
    from that f p r tr
    have "parse_arguments w args = ([LogWarning (exists_msg p)], Inl (SystemExit None))"
      by (simp add: parse_arguments_def overwrite_guard_key_absent)
    then show ?thesis by (simp add: main_parse_raises)
  qed
  have 2: "parse_arguments w args = ([], Inr a)" if "args ''--force'' = None \<and> \<not> isfile w p"
    using that f p r tr by (simp add: parse_arguments_def overwrite_guard_key_absent)
  have 3: "parse_arguments w args = ([], Inr a)" if "args ''--force'' \<noteq> None"
    using that f r tr by (simp add: parse_arguments_def overwrite_guard_key_present)
  from p 1 2 3 show "\<exists>p. a ''--out'' = Some (VStr p) \<and>
        (args ''--force'' = None \<and> isfile w p \<longrightarrow>
           parse_arguments w args = ([LogWarning (exists_msg p)], Inl (SystemExit None)) \<and>
           main w args = ([LogWarning (exists_msg p)], Inl (SystemExit None))) \<and>
        (args ''--force'' = None \<and> \<not> isfile w p \<longrightarrow> parse_arguments w args = ([], Inr a)) \<and>
        (args ''--force'' \<noteq> None \<longrightarrow> parse_arguments w args = ([], Inr a))"
    by blast
qed

theorem guard_on_key_absence_witness:
  "main ex_world_file (ex_arguments(''--force'' := None)) =
     ([LogWarning (exists_msg ''/home/u/a__b.vcf.gz'')], Inl (SystemExit None)) \<and>
   parse_arguments ex_world_file ex_arguments = resolve ex_world_file ex_arguments \<and>
   resolved ''--out'' (parse_arguments ex_world_file ex_arguments) =
     Some (VStr ''/home/u/a__b.vcf.gz'')"
proof -
  let ?args = "ex_arguments(''--force'' := None)"
  from ex_no_key_resolves obtain a where
    a: "resolve ex_world_file ?args = ([], Inr a)" "a ''--out'' = Some (VStr ''/home/u/a__b.vcf.gz'')"
    by blast
  have 1: "main ex_world_file ?args =
     ([LogWarning (exists_msg ''/home/u/a__b.vcf.gz'')], Inl (SystemExit None))"
    using guard_on_key_absence [of ex_world_file ?args "[]" a] a
    by (simp add: ex_world_file_def)
  from ex_key_resolves obtain b where b: "resolve ex_world_file ex_arguments = ([], Inr b)" ..
  have f: "ex_arguments ''--force'' \<noteq> None" by (simp add: ex_arguments_def)
  have 2: "parse_arguments ex_world_file ex_arguments = resolve ex_world_file ex_arguments"
    using guard_on_key_absence [of ex_world_file ex_arguments "[]" b] b f by auto
  have 3: "resolved ''--out'' (parse_arguments ex_world_file ex_arguments) =
     Some (VStr ''/home/u/a__b.vcf.gz'')"
    unfolding 2 by (simp add: run_defs ex_world_file_def resolved_def)
  from 1 2 3 show ?thesis by blast
qed

text \<open>
  Claim C2, as amended. With no output path given (\<^verbatim>\<open>--out\<close> absent or empty) and the input
  files \<open>beds\<close>, the path \<^verbatim>\<open>parse_arguments\<close> returns is the working directory joined
  with the name made of the base names of the inputs, each with \<^verbatim>\<open>.bed\<close> removed, joined
  by two underscores; followed by \<^verbatim>\<open>.vcf\<close> unless that name already ends with \<^verbatim>\<open>.vcf\<close>;
  followed by \<^verbatim>\<open>.gz\<close> unless \<^verbatim>\<open>--unzipped\<close> is set. For \<^verbatim>\<open>a.bed\<close> and \<^verbatim>\<open>b.bed\<close> in
  \<^verbatim>\<open>/home/u\<close> this is \<^verbatim>\<open>/home/u/a__b.vcf.gz\<close>, and \<^verbatim>\<open>/home/u/a__b.vcf\<close> with
  \<^verbatim>\<open>--unzipped\<close>.
\<close>

theorem derived_output_path:
  "parse_arguments w args = (tr, Inr a) \<and> args ''--out'' = Some v \<and> \<not> truthy v \<and>
   args ''--in'' = Some (VList beds) \<and> args ''--unzipped'' = Some u \<longrightarrow>
     a ''--out'' =
       Some (VStr (path_join (getcwd w) (out_filename beds) @
                   (if endswith (out_filename beds) ''.vcf'' then [] else ''.vcf'') @
                   (if truthy u then [] else ''.gz'')))"
proof (intro impI, elim conjE)
  assume p: "parse_arguments w args = (tr, Inr a)" and v: "args ''--out'' = Some v" "\<not> truthy v"
    and i: "args ''--in'' = Some (VList beds)" and u: "args ''--unzipped'' = Some u"
  from resolve_returns(2) [OF parse_arguments_returns(2) [OF p]] obtain a0 where
    a0: "before_tools w args = ([], Inr a0)" "resolve_tools w varnames a0 = ([], Inr a)"
    by blast
  let ?base = "path_join (getcwd w) (out_filename beds)"
  from before_tools_returns(5) [OF a0(1)] v i u
  have "a0 ''--out'' = Some (VStr ((if endswith ?base ''.vcf'' then ?base else ?base @ ''.vcf'') @
                                     (if truthy u then [] else ''.gz'')))"
    by auto
  moreover have "endswith ?base ''.vcf'' \<longleftrightarrow> endswith (out_filename beds) ''.vcf''"
    by (rule path_join_endswith [OF out_filename_slash_free])
  ultimately show "a ''--out'' =
       Some (VStr (?base @ (if endswith (out_filename beds) ''.vcf'' then [] else ''.vcf'') @
                   (if truthy u then [] else ''.gz'')))"
    using resolve_out_kept [OF a0] by simp
qed

theorem derived_output_path_witness:
  "resolved ''--out'' (parse_arguments ex_world ex_arguments) = Some (VStr ''/home/u/a__b.vcf.gz'') \<and>
   resolved ''--out'' (parse_arguments ex_world (ex_arguments(''--unzipped'' \<mapsto> VBool True))) =
     Some (VStr ''/home/u/a__b.vcf'')"
proof -
  from ex_returns obtain a where a: "parse_arguments ex_world ex_arguments = ([], Inr a)" ..
  from ex_unzipped_returns obtain b where
    b: "parse_arguments ex_world (ex_arguments(''--unzipped'' \<mapsto> VBool True)) = ([], Inr b)" ..
  have n: "out_filename [''a.bed'', ''b.bed''] = ''a__b''"
    by (simp add: out_filename_def basename_def startswith_def)
  have "a ''--out'' = Some (VStr ''/home/u/a__b.vcf.gz'')"
    using derived_output_path [of ex_world ex_arguments "[]" a VNone "[''a.bed'', ''b.bed'']" "VBool False"] a
    by (simp add: n) (simp add: ex_arguments_def ex_world_def path_join_def startswith_def endswith_def)
  moreover have "b ''--out'' = Some (VStr ''/home/u/a__b.vcf'')"
    using derived_output_path [of ex_world "ex_arguments(''--unzipped'' \<mapsto> VBool True)" "[]" b VNone
        "[''a.bed'', ''b.bed'']" "VBool True"] b
    by (simp add: n) (simp add: ex_arguments_def ex_world_def path_join_def startswith_def endswith_def)
  ultimately show ?thesis using a b by (simp add: resolved_def)
qed

text \<open>
  The claim as it was stated appends \<^verbatim>\<open>.vcf\<close> always. The input \<^verbatim>\<open>x.vcf.bed\<close> leaves the
  name \<^verbatim>\<open>x.vcf\<close>, to which line 101 adds nothing: the run returns
  \<^verbatim>\<open>/home/u/x.vcf.gz\<close>, not \<^verbatim>\<open>/home/u/x.vcf.vcf.gz\<close>.
\<close>

theorem derived_output_path_counterexample:
  "resolved ''--out'' (parse_arguments ex_world (ex_arguments(''--in'' \<mapsto> VList [''x.vcf.bed''])))
     = Some (VStr ''/home/u/x.vcf.gz'') \<and>
   path_join (getcwd ex_world) (out_filename [''x.vcf.bed'']) @ ''.vcf'' @ ''.gz''
     = ''/home/u/x.vcf.vcf.gz''"
  by (simp add: resolved_def run_defs)

text \<open>
  Claim C3, as amended. Once the steps before the loop have returned, and with the six
  tool options in the mapping: the loop takes the tools in the order bcftools, tabix,
  bgzip, gatk3, java, reference_fasta; the value of a tool is the flag if one is given
  with a value that is not empty, else the variable \<^verbatim>\<open>PATH_TO_<TOOL>\<close> of the
  environment if it is set. If some tool has neither, the first such tool in that order
  ends the program at once: the only thing printed is the message that names its flag
  and its variable, and \<^verbatim>\<open>parse_arguments\<close> and \<^verbatim>\<open>main\<close> exit. If no tool is missing,
  every tool option holds its value after the loop and nothing else of the mapping has
  changed.
\<close>

theorem tool_paths_in_order:
  "before_tools w args = (tr, Inr a) \<and> (\<forall>v \<in> set varnames. args (parameter_of v) \<noteq> None) \<longrightarrow>
     map parameter_of varnames =
       [''--path-to-bcftools'', ''--path-to-tabix'', ''--path-to-bgzip'', ''--path-to-gatk3'',
        ''--path-to-java'', ''--path-to-reference-fasta''] \<and>
     map env_varname_of varnames =
       [''PATH_TO_BCFTOOLS'', ''PATH_TO_TABIX'', ''PATH_TO_BGZIP'', ''PATH_TO_GATK3'',
        ''PATH_TO_JAVA'', ''PATH_TO_REFERENCE_FASTA''] \<and>
     (case find (\<lambda>v. spec_tool_path w args v = None) varnames of
        Some v \<Rightarrow>
          parse_arguments w args =
            ([Print (''Missing either '' @ parameter_of v @ '' or ENV variable '' @
                     env_varname_of v)], Inl (SystemExit None)) \<and>
          main w args =
            ([Print (''Missing either '' @ parameter_of v @ '' or ENV variable '' @
                     env_varname_of v)], Inl (SystemExit None))
      | None \<Rightarrow>
          (\<exists>b. resolve w args = ([], Inr b) \<and>
               (\<forall>v \<in> set varnames. b (parameter_of v) = spec_tool_path w args v) \<and>
               (\<forall>k. k \<notin> parameter_of ` set varnames \<longrightarrow> b k = a k)))"
proof (intro impI, elim conjE)
  assume b: "before_tools w args = (tr, Inr a)"
    and k: "\<forall>v \<in> set varnames. args (parameter_of v) \<noteq> None"
  from before_tools_returns(1) [OF b] have tr: "tr = []" .
  have keys: "\<forall>v \<in> set varnames. a (parameter_of v) \<noteq> None"
    using k before_tools_tool_keys [OF b] by simp
  have same: "\<forall>v \<in> set varnames. spec_tool_path w a v = spec_tool_path w args v"
    using before_tools_spec_tool_path [OF b] by simp
  then have f: "find (\<lambda>v. spec_tool_path w a v = None) varnames =
             find (\<lambda>v. spec_tool_path w args v = None) varnames"
    by (auto intro: find_cong)
  note loop = resolve_tools_spec [OF distinct_parameters keys, of w, unfolded f]
  have main: "(case find (\<lambda>v. spec_tool_path w args v = None) varnames of
        Some v \<Rightarrow>
          parse_arguments w args =
            ([Print (''Missing either '' @ parameter_of v @ '' or ENV variable '' @
                     env_varname_of v)], Inl (SystemExit None)) \<and>
          main w args =
            ([Print (''Missing either '' @ parameter_of v @ '' or ENV variable '' @
                     env_varname_of v)], Inl (SystemExit None))
      | None \<Rightarrow>
          (\<exists>b. resolve w args = ([], Inr b) \<and>
               (\<forall>v \<in> set varnames. b (parameter_of v) = spec_tool_path w args v) \<and>
               (\<forall>k. k \<notin> parameter_of ` set varnames \<longrightarrow> b k = a k)))"
  proof (cases "find (\<lambda>v. spec_tool_path w args v = None) varnames")
    case None
    with loop obtain c where c: "resolve_tools w varnames a = ([], Inr c)"
      "\<forall>v \<in> set varnames. c (parameter_of v) = spec_tool_path w a v"
      "\<forall>k. k \<notin> parameter_of ` set varnames \<longrightarrow> c k = a k"
      by auto
    from b tr c(1) have "resolve w args = ([], Inr c)" by (simp add: resolve_def)
    with c(2,3) same None show ?thesis by auto
  next
    case (Some v)
    with loop have "resolve_tools w varnames a = ([Print (missing_msg v)], Inl (SystemExit None))"
      by simp
    with b tr have "resolve w args = ([Print (missing_msg v)], Inl (SystemExit None))"
      by (simp add: resolve_def)
    then have "parse_arguments w args = ([Print (missing_msg v)], Inl (SystemExit None))"
      by (simp add: parse_arguments_def)
    with Some show ?thesis by (simp add: main_parse_raises missing_msg_text)
  qed
  from parameter_of_varnames env_varname_of_varnames main
  show "map parameter_of varnames =
       [''--path-to-bcftools'', ''--path-to-tabix'', ''--path-to-bgzip'', ''--path-to-gatk3'',
        ''--path-to-java'', ''--path-to-reference-fasta''] \<and>
     map env_varname_of varnames =
       [''PATH_TO_BCFTOOLS'', ''PATH_TO_TABIX'', ''PATH_TO_BGZIP'', ''PATH_TO_GATK3'',
        ''PATH_TO_JAVA'', ''PATH_TO_REFERENCE_FASTA''] \<and>
     (case find (\<lambda>v. spec_tool_path w args v = None) varnames of
        Some v \<Rightarrow>
          parse_arguments w args =
            ([Print (''Missing either '' @ parameter_of v @ '' or ENV variable '' @
                     env_varname_of v)], Inl (SystemExit None)) \<and>
          main w args =
            ([Print (''Missing either '' @ parameter_of v @ '' or ENV variable '' @
                     env_varname_of v)], Inl (SystemExit None))
      | None \<Rightarrow>
          (\<exists>b. resolve w args = ([], Inr b) \<and>
               (\<forall>v \<in> set varnames. b (parameter_of v) = spec_tool_path w args v) \<and>
               (\<forall>k. k \<notin> parameter_of ` set varnames \<longrightarrow> b k = a k)))"
    by blast
qed

theorem tool_paths_in_order_witness:
  "main ex_world_missing (ex_arguments(''--path-to-bcftools'' \<mapsto> VStr ''/usr/bin/bcftools'')) =
     ([Print ''Missing either --path-to-bgzip or ENV variable PATH_TO_BGZIP''],
      Inl (SystemExit None)) \<and>
   resolved ''--path-to-bcftools''
     (parse_arguments ex_world (ex_arguments(''--path-to-bcftools'' \<mapsto> VStr ''/usr/bin/bcftools'')))
     = Some (VStr ''/usr/bin/bcftools'') \<and>
   resolved ''--path-to-tabix''
     (parse_arguments ex_world (ex_arguments(''--path-to-bcftools'' \<mapsto> VStr ''/usr/bin/bcftools'')))
     = Some (VStr ''/opt/tabix'')"
proof -
  let ?args = "ex_arguments(''--path-to-bcftools'' \<mapsto> VStr ''/usr/bin/bcftools'')"
  from ex_missing_before_tools obtain a where
    a: "before_tools ex_world_missing ?args = ([], Inr a)" ..
  have k: "\<forall>v \<in> set varnames. ?args (parameter_of v) \<noteq> None"
    by (simp add: varnames_def parameter_of_def startswith_def ex_arguments_def)
  have "main ex_world_missing ?args =
     ([Print ''Missing either --path-to-bgzip or ENV variable PATH_TO_BGZIP''],
      Inl (SystemExit None))"
    using tool_paths_in_order [of ex_world_missing ?args "[]" a] a k
    unfolding ex_missing_first
    by (simp add: parameter_of_def env_varname_of_def upper_def upper_char_def startswith_def)
  moreover have "resolved ''--path-to-bcftools'' (parse_arguments ex_world ?args)
     = Some (VStr ''/usr/bin/bcftools'')"
    by (simp add: run_defs resolved_def)
  moreover have "resolved ''--path-to-tabix'' (parse_arguments ex_world ?args)
     = Some (VStr ''/opt/tabix'')"
    by (simp add: run_defs resolved_def)
  ultimately show ?thesis by blast
qed

text \<open>
  The claim as it was stated takes the flag whenever it is given. Given as the empty
  string (\<^verbatim>\<open>--path-to-bcftools ''\<close>), the flag is in the mapping with the value \<^verbatim>\<open>''\<close>,
  but line 113 tests the value for truth: the variable of the environment is taken
  instead, and without the variable the program exits as if no flag had been given.
\<close>

theorem tool_paths_in_order_counterexample:
  "(ex_arguments(''--path-to-bcftools'' \<mapsto> VStr [])) ''--path-to-bcftools'' = Some (VStr []) \<and>
   resolved ''--path-to-bcftools''
     (parse_arguments ex_world (ex_arguments(''--path-to-bcftools'' \<mapsto> VStr [])))
     = Some (VStr ''/opt/bcftools'') \<and>
   main (ex_world\<lparr>environ := Map.empty\<rparr>) (ex_arguments(''--path-to-bcftools'' \<mapsto> VStr [])) =
     ([Print ''Missing either --path-to-bcftools or ENV variable PATH_TO_BCFTOOLS''],
      Inl (SystemExit None))"
proof -
  have "parse_arguments (ex_world\<lparr>environ := Map.empty\<rparr>)
          (ex_arguments(''--path-to-bcftools'' \<mapsto> VStr [])) =
     ([Print ''Missing either --path-to-bcftools or ENV variable PATH_TO_BCFTOOLS''],
      Inl (SystemExit None))"
    by (simp add: run_defs missing_msg_def)
  then have "main (ex_world\<lparr>environ := Map.empty\<rparr>)
          (ex_arguments(''--path-to-bcftools'' \<mapsto> VStr [])) =
     ([Print ''Missing either --path-to-bcftools or ENV variable PATH_TO_BCFTOOLS''],
      Inl (SystemExit None))"
    by (rule main_parse_raises)
  moreover have "resolved ''--path-to-bcftools''
     (parse_arguments ex_world (ex_arguments(''--path-to-bcftools'' \<mapsto> VStr [])))
     = Some (VStr ''/opt/bcftools'')"
    by (simp add: run_defs resolved_def)
  ultimately show ?thesis by simp
qed

text \<open>
  Claim C4, as amended. Cleanup is attempted on every way out of the \<^verbatim>\<open>try\<close> statement of
  \<^verbatim>\<open>main\<close>, unless \<^verbatim>\<open>--no-cleanup\<close> is set: once \<^verbatim>\<open>parse_arguments\<close> has returned and the
  log level is read, whatever the runner does (it returns, fails with an external-process
  error, is interrupted, raises anything else), the \<^verbatim>\<open>finally\<close> clause calls
  \<^verbatim>\<open>cleanup_temp_files\<close> exactly once, as the last thing \<^verbatim>\<open>main\<close> does, and not at all
  with \<^verbatim>\<open>--no-cleanup\<close>. The exits and errors of \<^verbatim>\<open>parse_arguments\<close> come before the
  \<^verbatim>\<open>try\<close> statement: on them \<^verbatim>\<open>main\<close> ends as \<^verbatim>\<open>parse_arguments\<close> did, with no cleanup.
\<close>

theorem cleanup_after_the_run:
  "(parse_arguments w args = (tr, Inr a) \<and> args ''--debug'' = Some d \<and>
    args ''--no-cleanup'' = Some n \<longrightarrow>
      count_list (fst (main w args)) CleanupTempFiles = (if truthy n then 0 else 1) \<and>
      (\<not> truthy n \<longrightarrow> last (fst (main w args)) = CleanupTempFiles)) \<and>
   (parse_arguments w args = (tr, Inl e) \<longrightarrow>
      main w args = (tr, Inl e) \<and> CleanupTempFiles \<notin> set (fst (main w args)))"
proof (intro conjI impI)
  assume h: "parse_arguments w args = (tr, Inr a) \<and> args ''--debug'' = Some d \<and>
    args ''--no-cleanup'' = Some n"
  then have p: "parse_arguments w args = (tr, Inr a)" by simp
  from h parse_arguments_keeps [OF p] have d: "a ''--debug'' = Some d"
    and n: "a ''--no-cleanup'' = Some n" by simp_all
  note ev = main_events_split [OF p d]
  note fin = finally_clause_cleanup [where a = a and n = n and w = w, OF n]
  show "count_list (fst (main w args)) CleanupTempFiles = (if truthy n then 0 else 1)"
    unfolding ev count_list_append count_cleanup_before_finally by (simp add: fin)
  show "last (fst (main w args)) = CleanupTempFiles" if "\<not> truthy n"
    unfolding ev using that by (simp add: fin)
next
  assume p: "parse_arguments w args = (tr, Inl e)"
  then show "main w args = (tr, Inl e)" by (rule main_parse_raises)
  with parse_arguments_no_cleanup [of w args] p
  show "CleanupTempFiles \<notin> set (fst (main w args))" by simp
qed

theorem cleanup_after_the_run_witness:
  "count_list (fst (main ex_world_interrupted ex_arguments)) CleanupTempFiles = 1 \<and>
   last (fst (main ex_world_interrupted ex_arguments)) = CleanupTempFiles \<and>
   count_list (fst (main ex_world_interrupted (ex_arguments(''--no-cleanup'' \<mapsto> VBool True))))
     CleanupTempFiles = 0"
proof -
  from ex_interrupted_returns obtain a where
    a: "parse_arguments ex_world_interrupted ex_arguments = ([], Inr a)" ..
  from ex_interrupted_no_cleanup_returns obtain b where
    b: "parse_arguments ex_world_interrupted (ex_arguments(''--no-cleanup'' \<mapsto> VBool True))
         = ([], Inr b)" ..
  have 1: "count_list (fst (main ex_world_interrupted ex_arguments)) CleanupTempFiles = 1 \<and>
   last (fst (main ex_world_interrupted ex_arguments)) = CleanupTempFiles"
    using cleanup_after_the_run [of ex_world_interrupted ex_arguments "[]" a "VBool False"
        "VBool False" ValueError] a
    by (simp add: ex_arguments_def)
  have 2: "count_list (fst (main ex_world_interrupted (ex_arguments(''--no-cleanup'' \<mapsto> VBool True))))
     CleanupTempFiles = 0"
    using cleanup_after_the_run [of ex_world_interrupted
        "ex_arguments(''--no-cleanup'' \<mapsto> VBool True)" "[]" b "VBool False" "VBool True" ValueError] b
    by (simp add: ex_arguments_def)
  from 1 2 show ?thesis by blast
qed

text \<open>
  The claim as it was stated has cleanup on every exit path of the program. With the
  variable for bgzip missing and \<^verbatim>\<open>--no-cleanup\<close> not set, the program exits from
  \<^verbatim>\<open>parse_arguments\<close>, before the \<^verbatim>\<open>try\<close> statement, and nothing is cleaned up.
\<close>

theorem cleanup_after_the_run_counterexample:
  "main ex_world_missing ex_arguments =
     ([Print ''Missing either --path-to-bgzip or ENV variable PATH_TO_BGZIP''],
      Inl (SystemExit None)) \<and>
   ex_arguments ''--no-cleanup'' = Some (VBool False) \<and>
   CleanupTempFiles \<notin> set (fst (main ex_world_missing ex_arguments))"
proof -
  have "parse_arguments ex_world_missing ex_arguments =
     ([Print ''Missing either --path-to-bgzip or ENV variable PATH_TO_BGZIP''],
      Inl (SystemExit None))"
    by (simp add: run_defs ex_world_missing_def missing_msg_def)
  then have "main ex_world_missing ex_arguments =
     ([Print ''Missing either --path-to-bgzip or ENV variable PATH_TO_BGZIP''],
      Inl (SystemExit None))"
    by (rule main_parse_raises)
  then show ?thesis by (simp add: ex_arguments_def)
qed

text \<open>
  Claim C5. When the runner raises \<^verbatim>\<open>CalledProcessError\<close> with an exit code and a command,
  \<^verbatim>\<open>main\<close> does exactly this: the one call of the runner, one warning whose text holds
  the exit code and the command, the \<^verbatim>\<open>finally\<close> clause, and then it ends with
  \<^verbatim>\<open>SystemExit\<close> (or with what the cleanup raised). The runner is called once and not
  again, and \<^verbatim>\<open>main\<close> never returns normally.
\<close>

theorem process_failure_is_fatal:
  "parse_arguments w args = (tr, Inr a) \<and> a ''--debug'' = Some d \<and>
   find (\<lambda>k. a k = None) run_keys = None \<and> a ''--no-cleanup'' = Some n \<and>
   run_pipeline w (call_args a) = Some (CalledProcessError code cmd) \<longrightarrow>
     main w args =
       ([LogInstall (if truthy d then ''DEBUG'' else ''INFO''),
         RunPipeline (call_args a),
         LogWarning (''The following command failed (code: '' @ show_int code @
                      ''). Cleanup and exit: '' @ cmd)] @
        (if truthy n then [LogInfo ''No cleanup requested, leaving the temp files.'']
         else [LogInfo ''Cleaning up temporary files.'', CleanupTempFiles]),
        case (if truthy n then None else cleanup_temp_files w) of
          None \<Rightarrow> Inl (SystemExit None)
        | Some x \<Rightarrow> Inl x) \<and>
     length (filter is_run_pipeline (fst (main w args))) = 1 \<and>
     snd (main w args) \<noteq> Inr ()"
proof (intro impI, elim conjE)
  assume p: "parse_arguments w args = (tr, Inr a)" and d: "a ''--debug'' = Some d"
    and k: "find (\<lambda>k. a k = None) run_keys = None" and n: "a ''--no-cleanup'' = Some n"
    and r: "run_pipeline w (call_args a) = Some (CalledProcessError code cmd)"
  have m: "main w args =
       ([LogInstall (if truthy d then ''DEBUG'' else ''INFO''),
         RunPipeline (call_args a),
         LogWarning (''The following command failed (code: '' @ show_int code @
                      ''). Cleanup and exit: '' @ cmd)] @
        (if truthy n then [LogInfo ''No cleanup requested, leaving the temp files.'']
         else [LogInfo ''Cleaning up temporary files.'', CleanupTempFiles]),
        case (if truthy n then None else cleanup_temp_files w) of
          None \<Rightarrow> Inl (SystemExit None)
        | Some x \<Rightarrow> Inl x)"
    unfolding main_parse_returns [OF p d] try_statement_split try_body_called [where a = a and w = w, OF k]
      finally_clause_cleanup [where a = a and n = n and w = w, OF n]
    by (simp add: r failed_msg_def split: option.splits)
  have c: "length (filter is_run_pipeline (fst (main w args))) = 1"
    unfolding m by simp
  have f: "snd (main w args) \<noteq> Inr ()"
    unfolding m by (simp split: option.splits)
  from m c f show "main w args =
       ([LogInstall (if truthy d then ''DEBUG'' else ''INFO''),
         RunPipeline (call_args a),
         LogWarning (''The following command failed (code: '' @ show_int code @
                      ''). Cleanup and exit: '' @ cmd)] @
        (if truthy n then [LogInfo ''No cleanup requested, leaving the temp files.'']
         else [LogInfo ''Cleaning up temporary files.'', CleanupTempFiles]),
        case (if truthy n then None else cleanup_temp_files w) of
          None \<Rightarrow> Inl (SystemExit None)
        | Some x \<Rightarrow> Inl x) \<and>
     length (filter is_run_pipeline (fst (main w args))) = 1 \<and>
     snd (main w args) \<noteq> Inr ()"
    by blast
qed

theorem process_failure_is_fatal_witness:
  "snd (main ex_world_failing ex_arguments) = Inl (SystemExit None) \<and>
   fst (main ex_world_failing ex_arguments) ! 2 =
     LogWarning ''The following command failed (code: 2). Cleanup and exit: tabix -h url 1:100-200'' \<and>
   length (filter is_run_pipeline (fst (main ex_world_failing ex_arguments))) = 1 \<and>
   last (fst (main ex_world_failing ex_arguments)) = CleanupTempFiles"
proof -
  from ex_failing_returns obtain a where
    a: "parse_arguments ex_world_failing ex_arguments = ([], Inr a)"
       "a ''--debug'' = Some (VBool False)" "a ''--no-cleanup'' = Some (VBool False)"
       "find (\<lambda>k. a k = None) run_keys = None"
    by blast
  have r: "run_pipeline ex_world_failing (call_args a) =
      Some (CalledProcessError 2 ''tabix -h url 1:100-200'')"
    by (simp add: ex_world_failing_def)
  have c: "cleanup_temp_files ex_world_failing = None"
    by (simp add: ex_world_failing_def ex_world_def)
  from process_failure_is_fatal [of ex_world_failing ex_arguments "[]" a "VBool False"
      "VBool False" 2 "''tabix -h url 1:100-200''"] a r
  have "main ex_world_failing ex_arguments =
       ([LogInstall ''INFO'', RunPipeline (call_args a),
         LogWarning (''The following command failed (code: '' @ show_int 2 @
                      ''). Cleanup and exit: '' @ ''tabix -h url 1:100-200''),
         LogInfo ''Cleaning up temporary files.'', CleanupTempFiles],
        Inl (SystemExit None))"
    by (simp add: c)
  then show ?thesis by (simp add: show_int_def show_nat.simps)
qed

text \<open>
  Claim C6, as amended. When the value of \<^verbatim>\<open>--threads\<close> is a non-empty string, the thread
  count is what \<^verbatim>\<open>int\<close> makes of it; when the flag is absent (\<^verbatim>\<open>None\<close>) or its value is
  the empty string, the count is 6. When the value is a non-empty string that \<^verbatim>\<open>int\<close>
  does not accept, the \<^verbatim>\<open>ValueError\<close> of the conversion is caught nowhere: it leaves
  \<^verbatim>\<open>parse_arguments\<close> and \<^verbatim>\<open>main\<close>, with nothing printed, run or cleaned up.
\<close>

theorem thread_count:
  "(args ''--threads'' = Some (VStr s) \<and> s \<noteq> [] \<and> int_of_str w s = Some n \<longrightarrow>
      resolve_threads w args = ([], Inr (args(''--threads'' \<mapsto> VInt n))) \<and>
      (parse_arguments w args = (tr, Inr a) \<longrightarrow> a ''--threads'' = Some (VInt n))) \<and>
   (args ''--threads'' = Some VNone \<or> args ''--threads'' = Some (VStr []) \<longrightarrow>
      resolve_threads w args = ([], Inr (args(''--threads'' \<mapsto> VInt 6))) \<and>
      (parse_arguments w args = (tr, Inr a) \<longrightarrow> a ''--threads'' = Some (VInt 6))) \<and>
   (args ''--threads'' = Some (VStr s) \<and> s \<noteq> [] \<and> int_of_str w s = None \<and>
    args ''--version'' = Some ver \<and> \<not> truthy ver \<longrightarrow>
      parse_arguments w args = ([], Inl ValueError) \<and> main w args = ([], Inl ValueError))"
proof (intro conjI impI)
  assume h: "args ''--threads'' = Some (VStr s) \<and> s \<noteq> [] \<and> int_of_str w s = Some n"
  then show r: "resolve_threads w args = ([], Inr (args(''--threads'' \<mapsto> VInt n)))"
    by (simp add: resolve_threads_number)
  assume "parse_arguments w args = (tr, Inr a)"
  from parse_arguments_threads [OF this] r show "a ''--threads'' = Some (VInt n)" by auto
next
  assume h: "args ''--threads'' = Some VNone \<or> args ''--threads'' = Some (VStr [])"
  then show r: "resolve_threads w args = ([], Inr (args(''--threads'' \<mapsto> VInt 6)))"
    by (rule resolve_threads_default)
  assume "parse_arguments w args = (tr, Inr a)"
  from parse_arguments_threads [OF this] r show "a ''--threads'' = Some (VInt 6)" by auto
next
  assume h: "args ''--threads'' = Some (VStr s) \<and> s \<noteq> [] \<and> int_of_str w s = None \<and>
    args ''--version'' = Some ver \<and> \<not> truthy ver"
  then have "check_version w args = ([], Inr args)" by (simp add: check_version_def)
  moreover from h have "resolve_threads w args = ([], Inl ValueError)"
    by (simp add: resolve_threads_not_a_number)
  ultimately show p: "parse_arguments w args = ([], Inl ValueError)"
    by (simp add: parse_arguments_def resolve_def before_tools_def)
  then show "main w args = ([], Inl ValueError)" by (rule main_parse_raises)
qed

theorem thread_count_witness:
  "resolved ''--threads'' (parse_arguments ex_world (ex_arguments(''--threads'' \<mapsto> VStr ''8'')))
     = Some (VInt 8) \<and>
   resolved ''--threads'' (parse_arguments ex_world ex_arguments) = Some (VInt 6) \<and>
   main ex_world (ex_arguments(''--threads'' \<mapsto> VStr ''four'')) = ([], Inl ValueError)"
proof -
  from ex_threads_returns obtain a where
    a: "parse_arguments ex_world (ex_arguments(''--threads'' \<mapsto> VStr ''8'')) = ([], Inr a)" ..
  from ex_returns obtain b where b: "parse_arguments ex_world ex_arguments = ([], Inr b)" ..
  have i8: "int_of_str ex_world ''8'' = Some 8" by (simp add: ex_world_def dec_int_def)
  have i4: "int_of_str ex_world ''four'' = None" by (simp add: ex_world_def dec_int_def)
  have 1: "a ''--threads'' = Some (VInt 8)"
    using thread_count [of "ex_arguments(''--threads'' \<mapsto> VStr ''8'')" "''8''" ex_world 8 "[]" a] a i8
    by simp
  have 2: "b ''--threads'' = Some (VInt 6)"
    using thread_count [of ex_arguments "[]" ex_world 0 "[]" b] b
    by (simp add: ex_arguments_def)
  have 3: "main ex_world (ex_arguments(''--threads'' \<mapsto> VStr ''four'')) = ([], Inl ValueError)"
    using thread_count [of "ex_arguments(''--threads'' \<mapsto> VStr ''four'')" "''four''" ex_world 0 "[]" b
        "VBool False"] i4
    by (simp add: ex_arguments_def)
  from 1 2 3 a b show ?thesis by (simp add: resolved_def)
qed

text \<open>
  The claim as it was stated has every value that is not a number raise. For
  \<^verbatim>\<open>--threads ''\<close> the flag is present and its value is no number (\<^verbatim>\<open>int('')\<close> raises), but
  line 91 tests the value for truth, the empty string is false, and the count is 6.
\<close>

theorem thread_count_counterexample:
  "int_of_str ex_world [] = None \<and>
   resolved ''--threads'' (parse_arguments ex_world (ex_arguments(''--threads'' \<mapsto> VStr [])))
     = Some (VInt 6)"
  by (simp add: resolved_def run_defs dec_int_def)

text \<open>
  Claim C7. Each of the five early ways out ends with \<^verbatim>\<open>sys.exit()\<close> without an
  argument: the version flag, a tool with neither flag nor variable, an existing output
  file with the key \<^verbatim>\<open>--force\<close> absent, an interrupt and an external-process failure
  (the last two when the cleanup, if any, does not raise). More generally, whenever
  \<^verbatim>\<open>main\<close> ends with a \<^verbatim>\<open>SystemExit\<close> that the runner and the cleanup did not raise
  themselves, that \<^verbatim>\<open>SystemExit\<close> carries no code. The exit status is then that of a
  successful run.
\<close>

theorem exits_without_code:
  "(args ''--version'' = Some ver \<and> truthy ver \<and> version_msg (PACKAGE_INFO w) = Inr m \<longrightarrow>
      main w args = ([Print m], Inl (SystemExit None))) \<and>
   (before_tools w args = (tr, Inr a) \<and> (\<forall>v \<in> set varnames. args (parameter_of v) \<noteq> None) \<and>
    find (\<lambda>v. spec_tool_path w args v = None) varnames = Some v \<longrightarrow>
      main w args = ([Print (missing_msg v)], Inl (SystemExit None))) \<and>
   (resolve w args = (tr, Inr a) \<and> args ''--force'' = None \<and> a ''--out'' = Some (VStr p) \<and>
    isfile w p \<longrightarrow>
      main w args = ([LogWarning (exists_msg p)], Inl (SystemExit None))) \<and>
   (parse_arguments w args = (tr, Inr a) \<and> a ''--debug'' = Some d \<and>
    find (\<lambda>k. a k = None) run_keys = None \<and> a ''--no-cleanup'' = Some n \<and>
    (truthy n \<or> cleanup_temp_files w = None) \<and>
    (run_pipeline w (call_args a) = Some KeyboardInterrupt \<or>
     run_pipeline w (call_args a) = Some (CalledProcessError code cmd)) \<longrightarrow>
      snd (main w args) = Inl (SystemExit None)) \<and>
   ((\<forall>ra c. run_pipeline w ra \<noteq> Some (SystemExit c)) \<and>
    (\<forall>c. cleanup_temp_files w \<noteq> Some (SystemExit c)) \<longrightarrow>
      (\<forall>c. snd (main w args) = Inl (SystemExit c) \<longrightarrow> c = None)) \<and>
   exit_status (Inl (SystemExit None) :: py_exc + unit) = exit_status (Inr () :: py_exc + unit)"
proof (intro conjI impI allI)
  assume "args ''--version'' = Some ver \<and> truthy ver \<and> version_msg (PACKAGE_INFO w) = Inr m"
  then show "main w args = ([Print m], Inl (SystemExit None))"
    by (simp add: version_exit)
next
  assume "before_tools w args = (tr, Inr a) \<and> (\<forall>v \<in> set varnames. args (parameter_of v) \<noteq> None) \<and>
    find (\<lambda>v. spec_tool_path w args v = None) varnames = Some v"
  then show "main w args = ([Print (missing_msg v)], Inl (SystemExit None))"
    using missing_tool_exit [of w args tr a v] by blast
next
  assume "resolve w args = (tr, Inr a) \<and> args ''--force'' = None \<and> a ''--out'' = Some (VStr p) \<and>
    isfile w p"
  then show "main w args = ([LogWarning (exists_msg p)], Inl (SystemExit None))"
    using existing_output_exit [of w args tr a p] by blast
next
  assume "parse_arguments w args = (tr, Inr a) \<and> a ''--debug'' = Some d \<and>
    find (\<lambda>k. a k = None) run_keys = None \<and> a ''--no-cleanup'' = Some n \<and>
    (truthy n \<or> cleanup_temp_files w = None) \<and>
    (run_pipeline w (call_args a) = Some KeyboardInterrupt \<or>
     run_pipeline w (call_args a) = Some (CalledProcessError code cmd))"
  then show "snd (main w args) = Inl (SystemExit None)"
    using caught_exit [of w args tr a d n code cmd] by blast
next
  fix c
  assume h: "(\<forall>ra c. run_pipeline w ra \<noteq> Some (SystemExit c)) \<and>
    (\<forall>c. cleanup_temp_files w \<noteq> Some (SystemExit c))"
    and s: "snd (main w args) = Inl (SystemExit c)"
  show "c = None"
  proof (cases c)
    case None
    then show ?thesis .
  next
    case (Some n)
    from h have "snd (main w args) \<noteq> Inl (SystemExit (Some n))"
      by (intro main_code) auto
    with s Some show ?thesis by simp
  qed
next
  show "exit_status (Inl (SystemExit None) :: py_exc + unit) = exit_status (Inr () :: py_exc + unit)"
    by simp
qed

theorem exits_without_code_witness:
  "main ex_world (ex_arguments(''--version'' \<mapsto> VBool True)) =
     ([Print (''bed_to_tabix 1.0 (2017) by biocodices'' @ [CHR 0x0A] @ ''Check: github'')],
      Inl (SystemExit None)) \<and>
   snd (main ex_world_missing (ex_arguments(''--path-to-bcftools'' \<mapsto> VStr ''/usr/bin/bcftools'')))
     = Inl (SystemExit None) \<and>
   snd (main ex_world_file (ex_arguments(''--force'' := None))) = Inl (SystemExit None) \<and>
   snd (main ex_world_failing ex_arguments) = Inl (SystemExit None) \<and>
   exit_status (snd (main ex_world_failing ex_arguments)) = 0"
proof -
  have 1: "main ex_world (ex_arguments(''--version'' \<mapsto> VBool True)) =
     ([Print (''bed_to_tabix 1.0 (2017) by biocodices'' @ [CHR 0x0A] @ ''Check: github'')],
      Inl (SystemExit None))"
    using exits_without_code [where args = "ex_arguments(''--version'' \<mapsto> VBool True)"
        and w = ex_world and ver = "VBool True"
        and m = "''bed_to_tabix 1.0 (2017) by biocodices'' @ [CHR 0x0A] @ ''Check: github''"]
      ex_version_msg
    by simp
  let ?args = "ex_arguments(''--path-to-bcftools'' \<mapsto> VStr ''/usr/bin/bcftools'')"
  from ex_missing_before_tools obtain a where
    a: "before_tools ex_world_missing ?args = ([], Inr a)" ..
  have k: "\<forall>v \<in> set varnames. ?args (parameter_of v) \<noteq> None"
    by (simp add: varnames_def parameter_of_def startswith_def ex_arguments_def)
  have 2: "snd (main ex_world_missing ?args) = Inl (SystemExit None)"
    using exits_without_code [where args = ?args and w = ex_world_missing and tr = "[]" and a = a
        and v = "''bgzip''"] a k ex_missing_first
    by simp
  from ex_no_key_resolves obtain b where
    b: "resolve ex_world_file (ex_arguments(''--force'' := None)) = ([], Inr b)"
       "b ''--out'' = Some (VStr ''/home/u/a__b.vcf.gz'')"
    by blast
  have 3: "snd (main ex_world_file (ex_arguments(''--force'' := None))) = Inl (SystemExit None)"
    using exits_without_code [where args = "ex_arguments(''--force'' := None)" and w = ex_world_file
        and tr = "[]" and a = b and p = "''/home/u/a__b.vcf.gz''"] b
    by (simp add: ex_world_file_def)
  from ex_failing_returns obtain c where
    c: "parse_arguments ex_world_failing ex_arguments = ([], Inr c)"
       "c ''--debug'' = Some (VBool False)" "c ''--no-cleanup'' = Some (VBool False)"
       "find (\<lambda>k. c k = None) run_keys = None"
    by blast
  have r: "run_pipeline ex_world_failing (call_args c) =
      Some (CalledProcessError 2 ''tabix -h url 1:100-200'')"
    by (simp add: ex_world_failing_def)
  have cl: "cleanup_temp_files ex_world_failing = None"
    by (simp add: ex_world_failing_def ex_world_def)
  have 4: "snd (main ex_world_failing ex_arguments) = Inl (SystemExit None)"
    using exits_without_code [where args = ex_arguments and w = ex_world_failing and tr = "[]"
        and a = c and d = "VBool False" and n = "VBool False" and code = 2
        and cmd = "''tabix -h url 1:100-200''"] c r cl
    by simp
  from 1 2 3 4 show ?thesis by simp
qed

text \<open>
  Claim C8. In every mapping docopt returns for this usage text the key \<^verbatim>\<open>--force\<close> is
  present, mapped to a boolean. So the test of the guard never holds and its exit is out
  of reach: the guard returns any mapping that has the key, \<^verbatim>\<open>parse_arguments\<close> does
  what it does without the guard, and neither it nor \<^verbatim>\<open>main\<close> depends on which files
  exist. An output file that is already there never stops the run, with or without
  \<^verbatim>\<open>--force\<close>.
\<close>

theorem guard_idle_after_docopt:
  "docopt_result args \<longrightarrow>
     (\<exists>b. args ''--force'' = Some (VBool b)) \<and>
     (\<forall>a. overwrite_guard w (a(''--force'' := args ''--force'')) =
            ([], Inr (a(''--force'' := args ''--force'')))) \<and>
     parse_arguments w args = resolve w args \<and>
     (\<forall>f. parse_arguments (w\<lparr>isfile := f\<rparr>) args = parse_arguments w args) \<and>
     (\<forall>f. main (w\<lparr>isfile := f\<rparr>) args = main w args)"
proof
  assume d: "docopt_result args"
  from docopt_force [OF d] obtain b where b: "args ''--force'' = Some (VBool b)" ..
  then have n: "args ''--force'' \<noteq> None" by simp
  have 1: "\<forall>a. overwrite_guard w (a(''--force'' := args ''--force'')) =
            ([], Inr (a(''--force'' := args ''--force'')))"
    using b by (simp add: overwrite_guard_key_present)
  have 2: "parse_arguments w args = resolve w args" for w
    using n by (rule parse_arguments_guard_idle)
  have 3: "parse_arguments (w\<lparr>isfile := f\<rparr>) args = parse_arguments w args" for f
    by (simp add: 2)
  have "(\<lambda>a. case a ''--debug'' of None \<Rightarrow> ([], Inl (KeyError ''--debug''))
           | Some d \<Rightarrow>
               and_then ([LogInstall (if truthy d then ''DEBUG'' else ''INFO'')], Inr ())
                (\<lambda>_. try_statement (w\<lparr>isfile := f\<rparr>) a)) =
        (\<lambda>a. case a ''--debug'' of None \<Rightarrow> ([], Inl (KeyError ''--debug''))
           | Some d \<Rightarrow>
               and_then ([LogInstall (if truthy d then ''DEBUG'' else ''INFO'')], Inr ())
                (\<lambda>_. try_statement w a))" for f
    by (intro ext) (simp split: option.splits)
  then have 4: "main (w\<lparr>isfile := f\<rparr>) args = main w args" for f
    by (simp add: main_def 3)
  from b 1 2 3 4 show "(\<exists>b. args ''--force'' = Some (VBool b)) \<and>
     (\<forall>a. overwrite_guard w (a(''--force'' := args ''--force'')) =
            ([], Inr (a(''--force'' := args ''--force'')))) \<and>
     parse_arguments w args = resolve w args \<and>
     (\<forall>f. parse_arguments (w\<lparr>isfile := f\<rparr>) args = parse_arguments w args) \<and>
     (\<forall>f. main (w\<lparr>isfile := f\<rparr>) args = main w args)"
    by blast
qed

theorem guard_idle_after_docopt_witness:
  "docopt_result ex_arguments \<and>
   main ex_world_file ex_arguments = main ex_world ex_arguments \<and>
   list_ex is_run_pipeline (fst (main ex_world_file ex_arguments)) \<and>
   snd (main ex_world_file ex_arguments) = Inr ()"
proof -
  have "main ex_world_file ex_arguments = main ex_world ex_arguments"
    using guard_idle_after_docopt [of ex_arguments ex_world] ex_docopt
    unfolding ex_world_file_def by blast
  then show ?thesis using ex_docopt by (simp add: ex_main)
qed

text \<open>
  Claim C9. Whatever the input, also with a path given by \<^verbatim>\<open>--out\<close>, the output path
  that \<^verbatim>\<open>parse_arguments\<close> returns ends with \<^verbatim>\<open>.vcf\<close> when \<^verbatim>\<open>--unzipped\<close> is set and with
  \<^verbatim>\<open>.vcf.gz\<close> when it is not. The suffixes are appended to the path given, never put in
  the place of one: without \<^verbatim>\<open>--unzipped\<close>, a given path that ends with \<^verbatim>\<open>.vcf.gz\<close>
  comes back ending with \<^verbatim>\<open>.vcf.gz.vcf.gz\<close>.
\<close>

theorem output_suffix:
  "parse_arguments w args = (tr, Inr a) \<and> args ''--unzipped'' = Some u \<longrightarrow>
     (\<exists>p. a ''--out'' = Some (VStr p) \<and>
        (truthy u \<longrightarrow> endswith p ''.vcf'') \<and>
        (\<not> truthy u \<longrightarrow> endswith p ''.vcf.gz'') \<and>
        (\<forall>s. args ''--out'' = Some (VStr s) \<and> s \<noteq> [] \<longrightarrow>
           p = s @ (if endswith s ''.vcf'' then [] else ''.vcf'') @
                   (if truthy u then [] else ''.gz'')) \<and>
        (\<forall>q. args ''--out'' = Some (VStr (q @ ''.vcf.gz'')) \<and> \<not> truthy u \<longrightarrow>
           p = q @ ''.vcf.gz.vcf.gz''))"
proof (intro impI, elim conjE)
  assume p: "parse_arguments w args = (tr, Inr a)" and u: "args ''--unzipped'' = Some u"
  from resolve_returns(2) [OF parse_arguments_returns(2) [OF p]] obtain a0 where
    a0: "before_tools w args = ([], Inr a0)" "resolve_tools w varnames a0 = ([], Inr a)"
    by blast
  from before_tools_returns(5) [OF a0(1)] u obtain v base where
    v: "args ''--out'' = Some v"
       "if truthy v then v = VStr base
        else \<exists>i beds. args ''--in'' = Some i \<and> iter_strs i = Inr beds \<and>
               base = path_join (getcwd w) (out_filename beds)"
       "a0 ''--out'' = Some (VStr ((if endswith base ''.vcf'' then base else base @ ''.vcf'') @
                                   (if truthy u then [] else ''.gz'')))"
    by auto
  let ?vcf = "if endswith base ''.vcf'' then base else base @ ''.vcf''"
  let ?p = "?vcf @ (if truthy u then [] else ''.gz'')"
  have out: "a ''--out'' = Some (VStr ?p)"
    using resolve_out_kept [OF a0] v(3) by simp
  have e: "endswith ?vcf ''.vcf''" by simp
  have 1: "truthy u \<longrightarrow> endswith ?p ''.vcf''" using e by simp
  have 2: "\<not> truthy u \<longrightarrow> endswith ?p ''.vcf.gz''" using endswith_vcf_gz [OF e] by simp
  have 3: "\<forall>s. args ''--out'' = Some (VStr s) \<and> s \<noteq> [] \<longrightarrow>
           ?p = s @ (if endswith s ''.vcf'' then [] else ''.vcf'') @
                   (if truthy u then [] else ''.gz'')"
    using v(1,2) by auto
  have 4: "\<forall>q. args ''--out'' = Some (VStr (q @ ''.vcf.gz'')) \<and> \<not> truthy u \<longrightarrow>
           ?p = q @ ''.vcf.gz.vcf.gz''"
  proof (intro allI impI, elim conjE)
    fix q assume q: "args ''--out'' = Some (VStr (q @ ''.vcf.gz''))" "\<not> truthy u"
    with v(1,2) have "base = q @ ''.vcf.gz''" by auto
    with q(2) not_endswith_vcf [of q] show "?p = q @ ''.vcf.gz.vcf.gz''" by simp
  qed
  from out 1 2 3 4 show "(\<exists>p. a ''--out'' = Some (VStr p) \<and>
        (truthy u \<longrightarrow> endswith p ''.vcf'') \<and>
        (\<not> truthy u \<longrightarrow> endswith p ''.vcf.gz'') \<and>
        (\<forall>s. args ''--out'' = Some (VStr s) \<and> s \<noteq> [] \<longrightarrow>
           p = s @ (if endswith s ''.vcf'' then [] else ''.vcf'') @
                   (if truthy u then [] else ''.gz'')) \<and>
        (\<forall>q. args ''--out'' = Some (VStr (q @ ''.vcf.gz'')) \<and> \<not> truthy u \<longrightarrow>
           p = q @ ''.vcf.gz.vcf.gz''))"
    by blast
qed

theorem output_suffix_witness:
  "resolved ''--out'' (parse_arguments ex_world (ex_arguments(''--out'' \<mapsto> VStr ''calls.vcf.gz'')))
     = Some (VStr ''calls.vcf.gz.vcf.gz'')"
proof -
  let ?args = "ex_arguments(''--out'' \<mapsto> VStr ''calls.vcf.gz'')"
  from ex_out_returns obtain a where a: "parse_arguments ex_world ?args = ([], Inr a)" ..
  have u: "?args ''--unzipped'' = Some (VBool False)" by (simp add: ex_arguments_def)
  from output_suffix [of ex_world ?args "[]" a "VBool False"] a u obtain p where
    p: "a ''--out'' = Some (VStr p)"
       "\<forall>q. ?args ''--out'' = Some (VStr (q @ ''.vcf.gz'')) \<and> \<not> truthy (VBool False) \<longrightarrow>
           p = q @ ''.vcf.gz.vcf.gz''"
    by blast
  from p(2) [rule_format, of "''calls''"] have "p = ''calls.vcf.gz.vcf.gz''" by simp
  with p(1) a show ?thesis by (simp add: resolved_def)
qed

text \<open>
  Claim C10. With no \<^verbatim>\<open>--out\<close>, every occurrence of \<^verbatim>\<open>.bed\<close> anywhere in the base name of
  an input file is removed, not only a trailing extension. Take any input files, each
  written as a directory part \<open>d\<close> (empty or ending with a slash) followed by a base name
  with an occurrence of \<^verbatim>\<open>.bed\<close> between any two pieces \<open>u\<close> and \<open>t\<close>: lines 96 to 99
  store the working directory joined with the name in which each file contributes what
  the removal leaves of \<open>u\<close> followed by what it leaves of \<open>t\<close>, joined with two
  underscores, and that is the path \<^verbatim>\<open>parse_arguments\<close> returns, with its suffixes. So
  \<^verbatim>\<open>my.bedfile.bed\<close> contributes \<^verbatim>\<open>myfile\<close> and \<^verbatim>\<open>x.bed.bed\<close> contributes \<^verbatim>\<open>x\<close>.
\<close>

theorem bed_removed_everywhere:
  "args ''--out'' = Some v \<and> \<not> truthy v \<and>
   args ''--in'' = Some (VList (map (\<lambda>(d, u, t). d @ u @ ''.bed'' @ t) ps)) \<and>
   (\<forall>(d, u, t) \<in> set ps. (d = [] \<or> endswith d ''/'') \<and> CHR ''/'' \<notin> set (u @ t)) \<and>
   name = str_join ''__'' (map (\<lambda>(d, u, t). py_replace ''.bed'' [] u @ py_replace ''.bed'' [] t) ps)
   \<longrightarrow>
     derive_out w args = ([], Inr (args(''--out'' \<mapsto> VStr (path_join (getcwd w) name)))) \<and>
     (\<forall>tr a z. parse_arguments w args = (tr, Inr a) \<and> args ''--unzipped'' = Some z \<longrightarrow>
        a ''--out'' =
          Some (VStr (path_join (getcwd w) name @
                      (if endswith name ''.vcf'' then [] else ''.vcf'') @
                      (if truthy z then [] else ''.gz''))))"
proof (intro impI, elim conjE)
  assume v: "args ''--out'' = Some v" "\<not> truthy v"
    and i: "args ''--in'' = Some (VList (map (\<lambda>(d, u, t). d @ u @ ''.bed'' @ t) ps))"
    and p: "\<forall>(d, u, t) \<in> set ps. (d = [] \<or> endswith d ''/'') \<and> CHR ''/'' \<notin> set (u @ t)"
    and n: "name = str_join ''__'' (map (\<lambda>(d, u, t). py_replace ''.bed'' [] u @ py_replace ''.bed'' [] t) ps)"
  from out_filename_pieces [OF p] n
  have o: "out_filename (map (\<lambda>(d, u, t). d @ u @ ''.bed'' @ t) ps) = name" by simp
  have 1: "derive_out w args = ([], Inr (args(''--out'' \<mapsto> VStr (path_join (getcwd w) name))))"
    using derive_out_derives [OF v i, of w] by (simp only: o)
  have 2: "a ''--out'' =
          Some (VStr (path_join (getcwd w) name @
                      (if endswith name ''.vcf'' then [] else ''.vcf'') @
                      (if truthy z then [] else ''.gz'')))"
    if "parse_arguments w args = (tr, Inr a) \<and> args ''--unzipped'' = Some z" for tr a z
  proof -
    from that have pa: "parse_arguments w args = (tr, Inr a)" and un: "args ''--unzipped'' = Some z"
      by simp_all
    from parse_arguments_derived [OF pa v i un] show ?thesis by (simp only: o)
  qed
  from 1 2 show "derive_out w args = ([], Inr (args(''--out'' \<mapsto> VStr (path_join (getcwd w) name)))) \<and>
     (\<forall>tr a z. parse_arguments w args = (tr, Inr a) \<and> args ''--unzipped'' = Some z \<longrightarrow>
        a ''--out'' =
          Some (VStr (path_join (getcwd w) name @
                      (if endswith name ''.vcf'' then [] else ''.vcf'') @
                      (if truthy z then [] else ''.gz''))))"
    by blast
qed

theorem bed_removed_everywhere_witness:
  "resolved ''--out''
     (parse_arguments ex_world
        (ex_arguments(''--in'' \<mapsto> VList [''my.bedfile.bed'', ''/data/x.bed.bed''])))
     = Some (VStr ''/home/u/myfile__x.vcf.gz'') \<and>
   resolved ''--out''
     (derive_out ex_world
        (ex_arguments(''--in'' \<mapsto> VList [''my.bedfile.bed'', ''/data/x.bed.bed''])))
     = Some (VStr ''/home/u/myfile__x'')"
proof -
  let ?args = "ex_arguments(''--in'' \<mapsto> VList [''my.bedfile.bed'', ''/data/x.bed.bed''])"
  let ?ps = "[([], ''my'', ''file.bed''), (''/data/'', ''x'', ''.bed'')]"
  from ex_bed_returns obtain a where a: "parse_arguments ex_world ?args = ([], Inr a)" ..
  have i: "?args ''--in'' = Some (VList (map (\<lambda>(d, u, t). d @ u @ ''.bed'' @ t) ?ps))"
    by simp
  have o: "?args ''--out'' = Some VNone" "?args ''--unzipped'' = Some (VBool False)"
    by (simp_all add: ex_arguments_def)
  have c: "\<forall>(d, u, t) \<in> set ?ps. (d = [] \<or> endswith d ''/'') \<and> CHR ''/'' \<notin> set (u @ t)"
    by (simp add: endswith_def)
  have n: "''myfile__x'' =
     str_join ''__'' (map (\<lambda>(d, u, t). py_replace ''.bed'' [] u @ py_replace ''.bed'' [] t) ?ps)"
    by (simp add: startswith_def)
  note t = bed_removed_everywhere [of ?args VNone ?ps "''myfile__x''" ex_world, rule_format,
      OF conjI [OF o(1) conjI [OF _ conjI [OF i conjI [OF c n]]]]]
  have t': "derive_out ex_world ?args =
       ([], Inr (?args(''--out'' \<mapsto> VStr (path_join (getcwd ex_world) ''myfile__x'')))) \<and>
     (\<forall>tr a z. parse_arguments ex_world ?args = (tr, Inr a) \<and> ?args ''--unzipped'' = Some z \<longrightarrow>
        a ''--out'' =
          Some (VStr (path_join (getcwd ex_world) ''myfile__x'' @
                      (if endswith ''myfile__x'' ''.vcf'' then [] else ''.vcf'') @
                      (if truthy z then [] else ''.gz''))))"
    by (rule t) simp
  from t' a o(2) have "a ''--out'' =
          Some (VStr (path_join (getcwd ex_world) ''myfile__x'' @
                      (if endswith ''myfile__x'' ''.vcf'' then [] else ''.vcf'') @
                      (if truthy (VBool False) then [] else ''.gz'')))"
    by blast
  then have 1: "a ''--out'' = Some (VStr ''/home/u/myfile__x.vcf.gz'')"
    by (simp add: ex_world_def path_join_def startswith_def endswith_def)
  from t' have 2: "resolved ''--out'' (derive_out ex_world ?args) = Some (VStr ''/home/u/myfile__x'')"
    by (simp add: resolved_def ex_world_def path_join_def startswith_def endswith_def)
  from 1 2 a show ?thesis by (simp add: resolved_def)
qed

end
